theory Spec2Isabelle
  imports Complex_Main "HOL-Library.Word" "HOL-Library.Monad_Syntax"
begin

section \<open>The noise generator of \<^verbatim>\<open>src/App.jsx\<close>\<close>

text \<open>
  The embedding follows \<^verbatim>\<open>src/App.jsx\<close>, lines 161 to 460: the seven noise generators,
  \<^verbatim>\<open>normalizeSamples\<close>, \<^verbatim>\<open>createWavFile\<close> and the chunk loop of \<^verbatim>\<open>generateNoise\<close>.

  Numbers. A JavaScript number is modelled as a \<^typ>\<open>real\<close>. In the filters, the
  normaliser and the encoder every operation is exact: the rounding of IEEE-754 doubles,
  and of the single-precision cells of a \<^verbatim>\<open>Float32Array\<close>, is left out, and so are NaN
  and the infinities. The two products that decide the sample count are rounded to a
  double, as the runtime does (\<open>double_round\<close> below): the count is an integer, and the
  last bit of a product can change it. Integers that are written into the WAV container
  are reduced modulo the width of their field, as \<^verbatim>\<open>DataView\<close> does.

  Randomness. \<^verbatim>\<open>Math.random()\<close> is a source of values in \<open>[0, 1)\<close>. The source is
  modelled by the sequence of values it is going to return: \<open>g 0\<close> is the next one.
  Drawing returns that value and the rest of the sequence.
\<close>

type_synonym rng = "nat \<Rightarrow> real"

definition random :: "rng \<Rightarrow> real \<times> rng" where
  "random g = (g 0, \<lambda>k. g (Suc k))"

text \<open>
  The rounding of a real number to the nearest double: 53 significant bits, a tie goes to
  the even neighbour. \<open>\<lfloor>log 2 \<bar>x\<bar>\<rfloor>\<close> is the binary exponent of \<open>x\<close>, so \<open>x\<close> divided by the
  power of two that is 52 places below it lies between \<open>2^52\<close> and \<open>2^53\<close> in absolute
  value and is rounded to an integer. The range of the exponent is not limited: a number
  beyond the largest double is not turned into an infinity, and a number below the
  smallest normal double keeps 53 bits.
\<close>

definition round_even :: "real \<Rightarrow> int" where
  "round_even q =
     (let f = \<lfloor>q\<rfloor>; r = q - of_int f
      in if r < 1 / 2 then f else if 1 / 2 < r then f + 1 else if even f then f else f + 1)"

definition double_round :: "real \<Rightarrow> real" where
  "double_round x =
     (if x = 0 then 0
      else (let e = \<lfloor>log 2 \<bar>x\<bar>\<rfloor> - 52
            in of_int (round_even (x / 2 powr of_int e)) * 2 powr of_int e))"

text \<open>\<^verbatim>\<open>new Float32Array(length)\<close>: \<open>length\<close> cells, all zero.\<close>

definition Float32Array :: "nat \<Rightarrow> real list" where
  "Float32Array n = replicate n 0"

subsection \<open>White noise (lines 162 to 168)\<close>

definition white_body :: "nat \<Rightarrow> rng \<times> real list \<Rightarrow> rng \<times> real list" where
  "white_body i = (\<lambda>(g, samples).
     let (r, g) = random g
     in (g, samples[i := (r * 2 - 1) * 0.5]))"

definition generateWhiteNoise :: "rng \<Rightarrow> nat \<Rightarrow> real list \<times> rng" where
  "generateWhiteNoise g len =
     (let samples = Float32Array len;
          (g, samples) = fold white_body [0..<len] (g, samples)
      in (samples, g))"

subsection \<open>Filter state carried between calls\<close>

text \<open>
  A generator returns its filter state as an object, \<^verbatim>\<open>{ b0, b1, ... }\<close> or
  \<^verbatim>\<open>{ lastSample }\<close>, and reads it back with \<^verbatim>\<open>state?.b0 ?? 0\<close>: zero when the state
  is \<^verbatim>\<open>null\<close> or has no such field.
\<close>

type_synonym jsobj = "string \<rightharpoonup> real"

definition field :: "jsobj option \<Rightarrow> string \<Rightarrow> real" where
  "field state name =
     (case state of
        None \<Rightarrow> 0
      | Some obj \<Rightarrow> (case obj name of None \<Rightarrow> 0 | Some v \<Rightarrow> v))"

subsection \<open>Pink noise (lines 171 to 199)\<close>

definition pink_body ::
  "nat \<Rightarrow> rng \<times> (real \<times> real \<times> real \<times> real \<times> real \<times> real \<times> real) \<times> real list
       \<Rightarrow> rng \<times> (real \<times> real \<times> real \<times> real \<times> real \<times> real \<times> real) \<times> real list" where
  "pink_body i = (\<lambda>(g, (b0, b1, b2, b3, b4, b5, b6), samples).
     let (r, g) = random g;
         white = (r * 2 - 1) * 0.5;
         b0 = 0.99886 * b0 + white * 0.0555179;
         b1 = 0.99332 * b1 + white * 0.0750759;
         b2 = 0.96900 * b2 + white * 0.1538520;
         b3 = 0.86650 * b3 + white * 0.3104856;
         b4 = 0.55000 * b4 + white * 0.5329522;
         b5 = -0.7616 * b5 - white * 0.0168980;
         samples = samples[i := b0 + b1 + b2 + b3 + b4 + b5 + b6 + white * 0.5362];
         samples = samples[i := samples ! i * 0.11];
         b6 = white * 0.115926
     in (g, (b0, b1, b2, b3, b4, b5, b6), samples))"

definition generatePinkNoise :: "rng \<Rightarrow> nat \<Rightarrow> jsobj option \<Rightarrow> real list \<times> jsobj \<times> rng" where
  "generatePinkNoise g len state =
     (let samples = Float32Array len;
          b0 = field state ''b0'';
          b1 = field state ''b1'';
          b2 = field state ''b2'';
          b3 = field state ''b3'';
          b4 = field state ''b4'';
          b5 = field state ''b5'';
          b6 = field state ''b6'';
          (g, (b0, b1, b2, b3, b4, b5, b6), samples) =
             fold pink_body [0..<len] (g, (b0, b1, b2, b3, b4, b5, b6), samples)
      in (samples,
          [''b0'' \<mapsto> b0, ''b1'' \<mapsto> b1, ''b2'' \<mapsto> b2, ''b3'' \<mapsto> b3,
           ''b4'' \<mapsto> b4, ''b5'' \<mapsto> b5, ''b6'' \<mapsto> b6],
          g))"

subsection \<open>Brown noise (lines 202 to 214)\<close>

definition brown_body :: "nat \<Rightarrow> rng \<times> real \<times> real list \<Rightarrow> rng \<times> real \<times> real list" where
  "brown_body i = (\<lambda>(g, lastSample, samples).
     let (r, g) = random g;
         white = (r * 2 - 1) * 0.5;
         lastSample = (lastSample + white * 0.02) * 0.99;
         samples = samples[i := lastSample * 3.5]
     in (g, lastSample, samples))"

definition generateBrownNoise :: "rng \<Rightarrow> nat \<Rightarrow> jsobj option \<Rightarrow> real list \<times> jsobj \<times> rng" where
  "generateBrownNoise g len state =
     (let samples = Float32Array len;
          lastSample = field state ''lastSample'';
          (g, lastSample, samples) = fold brown_body [0..<len] (g, lastSample, samples)
      in (samples, [''lastSample'' \<mapsto> lastSample], g))"

subsection \<open>Blue noise (lines 217 to 229)\<close>

definition blue_body :: "nat \<Rightarrow> rng \<times> real \<times> real list \<Rightarrow> rng \<times> real \<times> real list" where
  "blue_body i = (\<lambda>(g, lastSample, samples).
     let (r, g) = random g;
         white = (r * 2 - 1) * 0.5;
         samples = samples[i := (white - lastSample) * 0.5];
         lastSample = white
     in (g, lastSample, samples))"

definition generateBlueNoise :: "rng \<Rightarrow> nat \<Rightarrow> jsobj option \<Rightarrow> real list \<times> jsobj \<times> rng" where
  "generateBlueNoise g len state =
     (let samples = Float32Array len;
          lastSample = field state ''lastSample'';
          (g, lastSample, samples) = fold blue_body [0..<len] (g, lastSample, samples)
      in (samples, [''lastSample'' \<mapsto> lastSample], g))"

subsection \<open>Violet noise (lines 232 to 246)\<close>

definition violet_body ::
  "nat \<Rightarrow> rng \<times> (real \<times> real) \<times> real list \<Rightarrow> rng \<times> (real \<times> real) \<times> real list" where
  "violet_body i = (\<lambda>(g, (lastSample, lastLastSample), samples).
     let (r, g) = random g;
         white = (r * 2 - 1) * 0.5;
         samples = samples[i := (white - 2 * lastSample + lastLastSample) * 0.3];
         lastLastSample = lastSample;
         lastSample = white
     in (g, (lastSample, lastLastSample), samples))"

definition generateVioletNoise :: "rng \<Rightarrow> nat \<Rightarrow> jsobj option \<Rightarrow> real list \<times> jsobj \<times> rng" where
  "generateVioletNoise g len state =
     (let samples = Float32Array len;
          lastSample = field state ''lastSample'';
          lastLastSample = field state ''lastLastSample'';
          (g, (lastSample, lastLastSample), samples) =
             fold violet_body [0..<len] (g, (lastSample, lastLastSample), samples)
      in (samples, [''lastSample'' \<mapsto> lastSample, ''lastLastSample'' \<mapsto> lastLastSample], g))"

subsection \<open>Grey noise (lines 249 to 276)\<close>

text \<open>Two loops: the first fills \<open>samples\<close>, the second filters it into \<open>filtered\<close>.\<close>

definition grey_body :: "nat \<Rightarrow> rng \<times> real list \<Rightarrow> rng \<times> real list" where
  "grey_body i = (\<lambda>(g, samples).
     let (r, g) = random g;
         white = (r * 2 - 1) * 0.5;
         pinkComponent = white * 0.7
     in (g, samples[i := pinkComponent * 0.6]))"

definition grey_filter_body ::
  "real list \<Rightarrow> nat \<Rightarrow> (real \<times> real) \<times> real list \<Rightarrow> (real \<times> real) \<times> real list" where
  "grey_filter_body samples i = (\<lambda>((state1, state2), filtered).
     let state1 = state1 * 0.99 + samples ! i * 0.01;
         state2 = state2 * 0.95 + samples ! i * 0.05
     in ((state1, state2),
         filtered[i := (state1 * 0.4 + state2 * 0.3 + samples ! i * 0.3) * 1.2]))"

definition generateGreyNoise :: "rng \<Rightarrow> nat \<Rightarrow> real list \<times> rng" where
  "generateGreyNoise g len =
     (let samples = Float32Array len;
          (g, samples) = fold grey_body [0..<len] (g, samples);
          filtered = Float32Array len;
          (state1, state2) = (0, 0);
          ((state1, state2), filtered) =
             fold (grey_filter_body samples) [0..<len] ((state1, state2), filtered)
      in (filtered, g))"

subsection \<open>Orange noise (lines 279 to 296)\<close>

definition orange_body ::
  "nat \<Rightarrow> rng \<times> (real \<times> real) \<times> real list \<Rightarrow> rng \<times> (real \<times> real) \<times> real list" where
  "orange_body i = (\<lambda>(g, (lastSample, filterState), samples).
     let (r, g) = random g;
         white = (r * 2 - 1) * 0.5;
         filterState = filterState * 0.992 + white * 0.008;
         lastSample = (lastSample + filterState * 0.015) * 0.995;
         samples = samples[i := lastSample * 2.8]
     in (g, (lastSample, filterState), samples))"

definition generateOrangeNoise :: "rng \<Rightarrow> nat \<Rightarrow> jsobj option \<Rightarrow> real list \<times> jsobj \<times> rng" where
  "generateOrangeNoise g len state =
     (let samples = Float32Array len;
          lastSample = field state ''lastSample'';
          filterState = field state ''filterState'';
          (g, (lastSample, filterState), samples) =
             fold orange_body [0..<len] (g, (lastSample, filterState), samples)
      in (samples, [''lastSample'' \<mapsto> lastSample, ''filterState'' \<mapsto> filterState], g))"

subsection \<open>Normalisation (lines 299 to 314)\<close>

definition peak :: "real list \<Rightarrow> real" where
  "peak samples =
     fold (\<lambda>i mx. let a = \<bar>samples ! i\<bar> in if a > mx then a else mx)
       [0..<length samples] 0"

definition normalizeSamples :: "real list \<Rightarrow> real list" where
  "normalizeSamples samples =
     (let mx = peak samples
      in if mx > 0.99
         then (let scale = 0.99 / mx
               in fold (\<lambda>i samples. samples[i := samples ! i * scale])
                    [0..<length samples] samples)
         else samples)"

subsection \<open>The WAV encoder (lines 317 to 358)\<close>

text \<open>
  The buffer is a list of bytes. A \<^verbatim>\<open>DataView\<close> setter converts its argument to an
  integer modulo the width of the field and stores the bytes, the low byte first (every
  call of the source passes \<^verbatim>\<open>littleEndian = true\<close>); a write that does not fit the buffer
  raises a \<^verbatim>\<open>RangeError\<close>, which is \<open>None\<close> here.
\<close>

type_synonym byte = "8 word"

definition SAMPLE_RATE :: nat where
  "SAMPLE_RATE = 44100"

definition CHANNELS :: nat where
  "CHANNELS = 1"

definition ArrayBuffer :: "nat \<Rightarrow> byte list" where
  "ArrayBuffer n = replicate n 0"

definition le_bytes :: "nat \<Rightarrow> int \<Rightarrow> byte list" where
  "le_bytes k v = map (\<lambda>j. word_of_int (v div 256 ^ j)) [0..<k]"

definition write_bytes :: "byte list \<Rightarrow> nat \<Rightarrow> byte list \<Rightarrow> byte list option" where
  "write_bytes view offset bs =
     (if offset + length bs \<le> length view
      then Some (take offset view @ bs @ drop (offset + length bs) view)
      else None)"

definition setUint8 :: "byte list \<Rightarrow> nat \<Rightarrow> int \<Rightarrow> byte list option" where
  "setUint8 view offset v = write_bytes view offset (le_bytes 1 v)"

definition setUint16 :: "byte list \<Rightarrow> nat \<Rightarrow> int \<Rightarrow> byte list option" where
  "setUint16 view offset v = write_bytes view offset (le_bytes 2 v)"

definition setUint32 :: "byte list \<Rightarrow> nat \<Rightarrow> int \<Rightarrow> byte list option" where
  "setUint32 view offset v = write_bytes view offset (le_bytes 4 v)"

text \<open>The conversion of a number to an integer drops the fraction (towards zero).\<close>

definition js_trunc :: "real \<Rightarrow> int" where
  "js_trunc x = (if x < 0 then \<lceil>x\<rceil> else \<lfloor>x\<rfloor>)"

definition setInt16 :: "byte list \<Rightarrow> nat \<Rightarrow> real \<Rightarrow> byte list option" where
  "setInt16 view offset x = write_bytes view offset (le_bytes 2 (js_trunc x))"

definition writeString :: "byte list \<Rightarrow> nat \<Rightarrow> string \<Rightarrow> byte list option" where
  "writeString view offset str =
     fold (\<lambda>i view. do { view \<leftarrow> view; setUint8 view (offset + i) (of_char (str ! i)) })
       [0..<length str] (Some view)"

definition pcm_body ::
  "real list \<Rightarrow> nat \<Rightarrow> (nat \<times> byte list) option \<Rightarrow> (nat \<times> byte list) option" where
  "pcm_body samples i acc = do {
     (offset, view) \<leftarrow> acc;
     let sample = max (-1) (min 1 (samples ! i));
     let intSample = (if sample < 0 then sample * 32768 else sample * 32767);
     view \<leftarrow> setInt16 view offset intSample;
     Some (offset + 2, view)
   }"

definition createWavFile :: "real list \<Rightarrow> nat \<Rightarrow> byte list option" where
  "createWavFile samples sampleRate = do {
     let len = length samples;
     let view = ArrayBuffer (44 + len * 2);
     view \<leftarrow> writeString view 0 ''RIFF'';
     view \<leftarrow> setUint32 view 4 (int (36 + len * 2));
     view \<leftarrow> writeString view 8 ''WAVE'';
     view \<leftarrow> writeString view 12 ''fmt '';
     view \<leftarrow> setUint32 view 16 16;
     view \<leftarrow> setUint16 view 20 1;
     view \<leftarrow> setUint16 view 22 (int CHANNELS);
     view \<leftarrow> setUint32 view 24 (int sampleRate);
     view \<leftarrow> setUint32 view 28 (int (sampleRate * CHANNELS * 2));
     view \<leftarrow> setUint16 view 32 (int (CHANNELS * 2));
     view \<leftarrow> setUint16 view 34 16;
     view \<leftarrow> writeString view 36 ''data'';
     view \<leftarrow> setUint32 view 40 (int (len * 2));
     (offset, view) \<leftarrow> fold (pcm_body samples) [0..<len] (Some (44, view));
     Some view
   }"

subsection \<open>The chunk loop of \<^verbatim>\<open>generateNoise\<close> (lines 382 to 444)\<close>

text \<open>
  Two errors can be raised: the \<^verbatim>\<open>Error('Unknown noise type')\<close> of the \<^verbatim>\<open>switch\<close>, and
  the \<^verbatim>\<open>RangeError\<close> of the runtime for a typed array of negative length or a write
  outside a buffer.
\<close>

datatype error = UnknownNoiseType | RangeError

definition CHUNK_SIZE :: nat where
  "CHUNK_SIZE = 441000"

text \<open>\<^verbatim>\<open>target.set(source, offset)\<close> of a typed array.\<close>

definition set_at :: "real list \<Rightarrow> real list \<Rightarrow> nat \<Rightarrow> error + real list" where
  "set_at target source offset =
     (if offset + length source \<le> length target
      then Inr (take offset target @ source @ drop (offset + length source) target)
      else Inl RangeError)"

text \<open>
  The \<^verbatim>\<open>switch (noiseType)\<close> of lines 396 to 435: the samples of the chunk, the new value
  of the variable \<open>state\<close> (White and Grey leave it as it is) and the random source after
  the call.
\<close>

definition dispatch ::
  "string \<Rightarrow> rng \<Rightarrow> nat \<Rightarrow> jsobj option \<Rightarrow> error + (real list \<times> jsobj option \<times> rng)" where
  "dispatch noiseType g chunkLength state =
     (if noiseType = ''white'' then
        (let (chunkSamples, g) = generateWhiteNoise g chunkLength
         in Inr (chunkSamples, state, g))
      else if noiseType = ''pink'' then
        (let (chunkSamples, state, g) = generatePinkNoise g chunkLength state
         in Inr (chunkSamples, Some state, g))
      else if noiseType = ''brown'' then
        (let (chunkSamples, state, g) = generateBrownNoise g chunkLength state
         in Inr (chunkSamples, Some state, g))
      else if noiseType = ''blue'' then
        (let (chunkSamples, state, g) = generateBlueNoise g chunkLength state
         in Inr (chunkSamples, Some state, g))
      else if noiseType = ''violet'' then
        (let (chunkSamples, state, g) = generateVioletNoise g chunkLength state
         in Inr (chunkSamples, Some state, g))
      else if noiseType = ''grey'' then
        (let (chunkSamples, g) = generateGreyNoise g chunkLength
         in Inr (chunkSamples, state, g))
      else if noiseType = ''orange'' then
        (let (chunkSamples, state, g) = generateOrangeNoise g chunkLength state
         in Inr (chunkSamples, Some state, g))
      else Inl UnknownNoiseType)"

text \<open>
  The loop \<^verbatim>\<open>for (let chunk = 0; chunk < chunks; chunk++)\<close>. The chunk size is a
  parameter \<open>cs\<close> here, so that statements can range over it; the source fixes it to
  \<open>CHUNK_SIZE\<close>, and only \<open>cs > 0\<close> is meaningful. With \<open>chunks\<close> the number of chunks of
  \<open>totalSamples\<close>, \<open>chunk < chunks\<close> gives \<open>start < totalSamples\<close>, so \<open>chunkLength\<close> is
  positive and the subtraction never goes below zero. The progress message of lines 440
  to 443 only changes the status line and is left out.
\<close>

function chunk_loop ::
  "nat \<Rightarrow> string \<Rightarrow> nat \<Rightarrow> nat \<Rightarrow> nat \<Rightarrow> real list \<times> jsobj option \<times> rng
     \<Rightarrow> error + (real list \<times> jsobj option \<times> rng)" where
  "chunk_loop cs noiseType totalSamples chunks chunk (samples, state, g) =
     (if chunk < chunks then
        (let start = chunk * cs;
             end = min (start + cs) totalSamples;
             chunkLength = end - start
         in case dispatch noiseType g chunkLength state of
              Inl e \<Rightarrow> Inl e
            | Inr (chunkSamples, state, g) \<Rightarrow>
                (case set_at samples chunkSamples start of
                   Inl e \<Rightarrow> Inl e
                 | Inr samples \<Rightarrow>
                     chunk_loop cs noiseType totalSamples chunks (chunk + 1) (samples, state, g)))
      else Inr (samples, state, g))"
  by pat_completeness auto
termination
  by (relation "measure (\<lambda>(cs, noiseType, totalSamples, chunks, chunk, st). chunks - chunk)") auto

text \<open>
  Lines 382 to 444 for a sample count \<open>totalSamples\<close>: the number of chunks, the
  allocation of the buffer, the loop. The first component lists the lengths of the
  sample buffers that line 384 has allocated. \<^verbatim>\<open>new Float32Array\<close> raises a
  \<^verbatim>\<open>RangeError\<close> and allocates nothing when the length is negative or above the longest
  typed array that the runtime allocates. That limit is not in the source: it is the
  parameter \<open>maxLength\<close>; the language allows no length above \<open>2^53 - 1\<close>. The quotient
  \<open>totalSamples / cs\<close> is exact here: for a count below \<open>2^53\<close> and the chunk size of the
  source its rounding to a double is too small to change the ceiling.
\<close>

definition generateSamples ::
  "nat \<Rightarrow> nat \<Rightarrow> string \<Rightarrow> int \<Rightarrow> rng \<Rightarrow> nat list \<times> (error + real list)" where
  "generateSamples cs maxLength noiseType totalSamples g =
     (let chunks = \<lceil>real_of_int totalSamples / real cs\<rceil>
      in if totalSamples < 0 \<or> int maxLength < totalSamples then ([], Inl RangeError)
         else
           (let samples = Float32Array (nat totalSamples);
                state = None
            in ([nat totalSamples],
                case chunk_loop cs noiseType (nat totalSamples) (nat chunks) 0 (samples, state, g) of
                  Inl e \<Rightarrow> Inl e
                | Inr (samples, state, g) \<Rightarrow> Inr samples)))"

subsection \<open>\<^verbatim>\<open>generateNoise\<close> (lines 372 to 460)\<close>

text \<open>
  The inputs are the limit of the runtime on the length of a typed array, the two state
  variables \<open>noiseType\<close> and \<open>duration\<close> (in minutes) and the random source. The two
  products of lines 373 and 374 are rounded to doubles before \<^verbatim>\<open>Math.floor\<close>. The result
  is the list of allocated sample buffers and either the error that the \<^verbatim>\<open>catch\<close> block
  reports or the bytes handed to \<^verbatim>\<open>downloadFile\<close>.
\<close>

definition generateNoise ::
  "nat \<Rightarrow> string \<Rightarrow> real \<Rightarrow> rng \<Rightarrow> nat list \<times> (error + byte list)" where
  "generateNoise maxLength noiseType duration g =
     (let durationSeconds = double_round (duration * 60);
          totalSamples = \<lfloor>double_round (real SAMPLE_RATE * durationSeconds)\<rfloor>
      in case generateSamples CHUNK_SIZE maxLength noiseType totalSamples g of
           (allocated, Inl e) \<Rightarrow> (allocated, Inl e)
         | (allocated, Inr samples) \<Rightarrow>
             (let normalizedSamples = normalizeSamples samples
              in case createWavFile normalizedSamples SAMPLE_RATE of
                   None \<Rightarrow> (allocated, Inl RangeError)
                 | Some wavBlob \<Rightarrow> (allocated, Inr wavBlob)))"

section \<open>The filters and the container as the specification words them\<close>

text \<open>
  The specification gives each filter as a recurrence over the sequence of its inputs.
  \<open>run_filter\<close> applies such a recurrence to a list of inputs, from a starting state, and
  returns the outputs in order and the final state.
\<close>

fun run_filter :: "('w \<Rightarrow> 's \<Rightarrow> 's \<times> real) \<Rightarrow> 's \<Rightarrow> 'w list \<Rightarrow> real list \<times> 's" where
  "run_filter stp s [] = ([], s)"
| "run_filter stp s (w # ws) =
     (let (s', x) = stp w s;
          (xs, s'') = run_filter stp s' ws
      in (x # xs, s''))"

text \<open>
  Pink, in the words of the specification: with \<open>white = random * 0.5\<close>, six poles
  \<open>bk = ak * bk + white * ck\<close> over the table of coefficient pairs; the output is the sum
  of the six new poles, the seventh tap \<open>b6\<close> of the previous step and \<open>white * 0.5362\<close>,
  scaled by \<open>0.11\<close>; then \<open>b6\<close> becomes \<open>white * 0.115926\<close>. Here \<open>rnd\<close> is the uniform value
  in \<open>[-1, 1)\<close>, which the source computes as \<^verbatim>\<open>Math.random() * 2 - 1\<close>.
\<close>

definition kellet_coefficients :: "(real \<times> real) list" where
  "kellet_coefficients =
     [(0.99886, 0.0555179), (0.99332, 0.0750759), (0.96900, 0.1538520),
      (0.86650, 0.3104856), (0.55000, 0.5329522), (-0.7616, -0.0168980)]"

definition spec_pink_step :: "real \<Rightarrow> real list \<times> real \<Rightarrow> (real list \<times> real) \<times> real" where
  "spec_pink_step rnd = (\<lambda>(poles, b6).
     let white = rnd * 0.5;
         poles = map2 (\<lambda>(a, c) b. a * b + white * c) kellet_coefficients poles
     in ((poles, white * 0.115926), (sum_list poles + b6 + white * 0.5362) * 0.11))"

text \<open>
  Grey, in the words of the specification: \<open>state1 += (x - state1) * 0.01\<close>,
  \<open>state2 += (x - state2) * 0.05\<close>, \<open>out = (0.4 * state1 + 0.3 * state2 + 0.3 * x) * 1.2\<close>.
\<close>

definition spec_grey_step :: "real \<Rightarrow> real \<times> real \<Rightarrow> (real \<times> real) \<times> real" where
  "spec_grey_step x = (\<lambda>(state1, state2).
     let state1 = state1 + (x - state1) * 0.01;
         state2 = state2 + (x - state2) * 0.05
     in ((state1, state2), (0.4 * state1 + 0.3 * state2 + 0.3 * x) * 1.2))"

text \<open>
  The container, in the words of the specification (section 6): the 44-byte header as a
  table of fields, every multi-byte field written low byte first, for one channel.
  \<open>uint_le k n\<close> is the unsigned \<open>k\<close>-byte little-endian field that holds \<open>n\<close>.
\<close>

definition uint_le :: "nat \<Rightarrow> nat \<Rightarrow> byte list" where
  "uint_le k n = map (\<lambda>j. of_nat (n div 256 ^ j mod 256)) [0..<k]"

definition spec_header :: "nat \<Rightarrow> nat \<Rightarrow> byte list" where
  "spec_header sampleRate dataBytes =
     map of_char ''RIFF'' @ uint_le 4 (36 + dataBytes) @ map of_char ''WAVE'' @
     map of_char ''fmt '' @ uint_le 4 16 @ uint_le 2 1 @ uint_le 2 1 @
     uint_le 4 sampleRate @ uint_le 4 (sampleRate * 1 * 2) @ uint_le 2 (1 * 2) @ uint_le 2 16 @
     map of_char ''data'' @ uint_le 4 dataBytes"

text \<open>
  Reading a header back: an unsigned little-endian field of \<open>k\<close> bytes at an offset, and
  the four values a decoder recovers (sample rate at 24, channel count at 22, bits per
  sample at 34, data length at 40).
\<close>

definition read_uint_le :: "byte list \<Rightarrow> nat \<Rightarrow> nat \<Rightarrow> nat" where
  "read_uint_le bytes offset k =
     sum_list (map (\<lambda>j. unat (bytes ! (offset + j)) * 256 ^ j) [0..<k])"

definition decode_header :: "byte list \<Rightarrow> nat \<times> nat \<times> nat \<times> nat" where
  "decode_header bytes =
     (read_uint_le bytes 24 4, read_uint_le bytes 22 2, read_uint_le bytes 34 2,
      read_uint_le bytes 40 4)"

text \<open>
  The conversion of one sample, in the words of the specification: clamp to \<open>[-1, 1]\<close>,
  multiply a negative value by \<open>32768\<close> and a non-negative one by \<open>32767\<close>, drop the
  fraction. \<open>read_int16_le\<close> reads two bytes as a signed 16-bit little-endian value.
\<close>

definition spec_clamp :: "real \<Rightarrow> real" where
  "spec_clamp x = (if x < - 1 then - 1 else if 1 < x then 1 else x)"

definition spec_truncate :: "real \<Rightarrow> int" where
  "spec_truncate y = (if 0 \<le> y then \<lfloor>y\<rfloor> else - \<lfloor>- y\<rfloor>)"

definition spec_pcm16 :: "real \<Rightarrow> int" where
  "spec_pcm16 x =
     (let c = spec_clamp x
      in spec_truncate (if c < 0 then c * 32768 else c * 32767))"

definition read_int16_le :: "byte list \<Rightarrow> nat \<Rightarrow> int" where
  "read_int16_le bytes offset =
     (let u = read_uint_le bytes offset 2
      in if u < 32768 then int u else int u - 65536)"

section \<open>Definitions used in the proofs\<close>

text \<open>One step of the running maximum of \<open>normalizeSamples\<close>.\<close>

definition upd_max :: "real \<Rightarrow> real \<Rightarrow> real" where
  "upd_max x mx = (let a = \<bar>x\<bar> in if a > mx then a else mx)"

text \<open>
  The random source after \<open>n\<close> draws. For a loop whose iteration turns a draw and the
  loop variables into new variables and one output: the variables after \<open>m\<close>
  iterations, and the output of iteration \<open>m\<close>.
\<close>

definition advance :: "nat \<Rightarrow> rng \<Rightarrow> rng" where
  "advance n g = (\<lambda>k. g (n + k))"

primrec vars_after :: "(real \<Rightarrow> 'v \<Rightarrow> 'v \<times> real) \<Rightarrow> (nat \<Rightarrow> real) \<Rightarrow> 'v \<Rightarrow> nat \<Rightarrow> 'v" where
  "vars_after stp g v 0 = v"
| "vars_after stp g v (Suc m) = fst (stp (g m) (vars_after stp g v m))"

definition out_at :: "(real \<Rightarrow> 'v \<Rightarrow> 'v \<times> real) \<Rightarrow> (nat \<Rightarrow> real) \<Rightarrow> 'v \<Rightarrow> nat \<Rightarrow> real" where
  "out_at stp g v m = snd (stp (g m) (vars_after stp g v m))"

text \<open>
  One iteration of each generator as such a step: the body of its loop without the buffer
  and the random source. Then the loop variables as they are read from a state object,
  and the state object that is returned for them.
\<close>

definition white_step :: "real \<Rightarrow> unit \<Rightarrow> unit \<times> real" where
  "white_step r u = (u, (r * 2 - 1) * 0.5)"

definition pink_step ::
  "real \<Rightarrow> real \<times> real \<times> real \<times> real \<times> real \<times> real \<times> real
     \<Rightarrow> (real \<times> real \<times> real \<times> real \<times> real \<times> real \<times> real) \<times> real" where
  "pink_step r = (\<lambda>(b0, b1, b2, b3, b4, b5, b6).
     let white = (r * 2 - 1) * 0.5;
         b0 = 0.99886 * b0 + white * 0.0555179;
         b1 = 0.99332 * b1 + white * 0.0750759;
         b2 = 0.96900 * b2 + white * 0.1538520;
         b3 = 0.86650 * b3 + white * 0.3104856;
         b4 = 0.55000 * b4 + white * 0.5329522;
         b5 = -0.7616 * b5 - white * 0.0168980
     in ((b0, b1, b2, b3, b4, b5, white * 0.115926),
         (b0 + b1 + b2 + b3 + b4 + b5 + b6 + white * 0.5362) * 0.11))"

definition brown_step :: "real \<Rightarrow> real \<Rightarrow> real \<times> real" where
  "brown_step r lastSample =
     (let white = (r * 2 - 1) * 0.5;
          lastSample = (lastSample + white * 0.02) * 0.99
      in (lastSample, lastSample * 3.5))"

definition blue_step :: "real \<Rightarrow> real \<Rightarrow> real \<times> real" where
  "blue_step r lastSample =
     (let white = (r * 2 - 1) * 0.5 in (white, (white - lastSample) * 0.5))"

definition violet_step :: "real \<Rightarrow> real \<times> real \<Rightarrow> (real \<times> real) \<times> real" where
  "violet_step r = (\<lambda>(lastSample, lastLastSample).
     let white = (r * 2 - 1) * 0.5
     in ((white, lastSample), (white - 2 * lastSample + lastLastSample) * 0.3))"

definition orange_step :: "real \<Rightarrow> real \<times> real \<Rightarrow> (real \<times> real) \<times> real" where
  "orange_step r = (\<lambda>(lastSample, filterState).
     let white = (r * 2 - 1) * 0.5;
         filterState = filterState * 0.992 + white * 0.008;
         lastSample = (lastSample + filterState * 0.015) * 0.995
     in ((lastSample, filterState), lastSample * 2.8))"

definition pink_vars :: "jsobj option \<Rightarrow> real \<times> real \<times> real \<times> real \<times> real \<times> real \<times> real" where
  "pink_vars state =
     (field state ''b0'', field state ''b1'', field state ''b2'', field state ''b3'',
      field state ''b4'', field state ''b5'', field state ''b6'')"

definition pink_obj :: "real \<times> real \<times> real \<times> real \<times> real \<times> real \<times> real \<Rightarrow> jsobj" where
  "pink_obj = (\<lambda>(b0, b1, b2, b3, b4, b5, b6).
     [''b0'' \<mapsto> b0, ''b1'' \<mapsto> b1, ''b2'' \<mapsto> b2, ''b3'' \<mapsto> b3,
      ''b4'' \<mapsto> b4, ''b5'' \<mapsto> b5, ''b6'' \<mapsto> b6])"

definition violet_vars :: "jsobj option \<Rightarrow> real \<times> real" where
  "violet_vars state = (field state ''lastSample'', field state ''lastLastSample'')"

definition violet_obj :: "real \<times> real \<Rightarrow> jsobj" where
  "violet_obj = (\<lambda>(lastSample, lastLastSample).
     [''lastSample'' \<mapsto> lastSample, ''lastLastSample'' \<mapsto> lastLastSample])"

definition orange_vars :: "jsobj option \<Rightarrow> real \<times> real" where
  "orange_vars state = (field state ''lastSample'', field state ''filterState'')"

definition orange_obj :: "real \<times> real \<Rightarrow> jsobj" where
  "orange_obj = (\<lambda>(lastSample, filterState).
     [''lastSample'' \<mapsto> lastSample, ''filterState'' \<mapsto> filterState])"

text \<open>The poles of the source's seven variables, and one iteration of the second loop of Grey.\<close>

definition pink_poles :: "real \<times> real \<times> real \<times> real \<times> real \<times> real \<times> real \<Rightarrow> real list \<times> real" where
  "pink_poles = (\<lambda>(b0, b1, b2, b3, b4, b5, b6). ([b0, b1, b2, b3, b4, b5], b6))"

definition grey_step :: "real \<Rightarrow> real \<times> real \<Rightarrow> (real \<times> real) \<times> real" where
  "grey_step x = (\<lambda>(state1, state2).
     let state1 = state1 * 0.99 + x * 0.01;
         state2 = state2 * 0.95 + x * 0.05
     in ((state1, state2), (state1 * 0.4 + state2 * 0.3 + x * 0.3) * 1.2))"

text \<open>
  For the encoder: a buffer whose first bytes are written and whose rest is still zero,
  the value passed to \<^verbatim>\<open>setInt16\<close> for one sample, and the bytes that \<open>createWavFile\<close>
  writes for a string, for the header and for one sample.
\<close>

definition filled :: "byte list \<Rightarrow> nat \<Rightarrow> byte list" where
  "filled written rest = written @ replicate rest 0"

definition intSample :: "real \<Rightarrow> real" where
  "intSample x =
     (let sample = max (-1) (min 1 x)
      in if sample < 0 then sample * 32768 else sample * 32767)"

definition ascii :: "string \<Rightarrow> byte list" where
  "ascii str = concat (map (\<lambda>c. le_bytes 1 (of_char c)) str)"

definition written_header :: "nat \<Rightarrow> nat \<Rightarrow> byte list" where
  "written_header sampleRate len =
     ascii ''RIFF'' @ le_bytes 4 (int (36 + len * 2)) @ ascii ''WAVE'' @
     ascii ''fmt '' @ le_bytes 4 16 @ le_bytes 2 1 @ le_bytes 2 (int CHANNELS) @
     le_bytes 4 (int sampleRate) @ le_bytes 4 (int (sampleRate * CHANNELS * 2)) @
     le_bytes 2 (int (CHANNELS * 2)) @ le_bytes 2 16 @
     ascii ''data'' @ le_bytes 4 (int (len * 2))"

definition written_sample :: "real \<Rightarrow> byte list" where
  "written_sample x = le_bytes 2 (js_trunc (intSample x))"

text \<open>
  The value of \<open>totalSamples\<close> in \<open>generateNoise\<close> (lines 373 and 374) for a duration in
  minutes.
\<close>

definition sample_count :: "real \<Rightarrow> int" where
  "sample_count duration =
     \<lfloor>double_round (real SAMPLE_RATE * double_round (duration * 60))\<rfloor>"

text \<open>A random source that returns the same value at every draw.\<close>

definition constant_source :: "real \<Rightarrow> rng" where
  "constant_source r = (\<lambda>k. r)"

section \<open>Loops over an index\<close>

text \<open>
  A loop \<^verbatim>\<open>for (let i = 0; i < n; i++)\<close> is \<open>fold body [0..<n]\<close>. The lemmas below
  describe the loops of the source that read or write one cell per iteration.
\<close>

lemma fold_read_index:
  "n \<le> length xs \<Longrightarrow> fold (\<lambda>i. f (xs ! i)) [0..<n] a = fold f (take n xs) a"
proof (induction n)
  case 0
  show ?case by simp
next
  case (Suc n)
  then have "take (Suc n) xs = take n xs @ [xs ! n]"
    by (simp add: take_Suc_conv_app_nth)
  with Suc show ?case by simp
qed

lemma fold_scale_index:
  "n \<le> length xs \<Longrightarrow>
     fold (\<lambda>i ys. ys[i := ys ! i * c]) [0..<n] xs = map (\<lambda>x. x * c) (take n xs) @ drop n xs"
proof (induction n)
  case 0
  show ?case by simp
next
  case (Suc n)
  then have n: "n < length xs" by simp
  have "(map (\<lambda>x. x * c) (take n xs) @ drop n xs) ! n = xs ! n"
    using n by (simp add: nth_append)
  moreover have "(map (\<lambda>x. x * c) (take n xs) @ drop n xs)[n := xs ! n * c]
      = map (\<lambda>x. x * c) (take n xs) @ (xs ! n * c) # drop (Suc n) xs"
    using n by (simp add: list_update_append Cons_nth_drop_Suc [symmetric])
  ultimately show ?case
    using Suc n by (simp add: take_Suc_conv_app_nth)
qed

lemma upd_max_max: "upd_max x m = max m \<bar>x\<bar>"
  by (simp add: upd_max_def Let_def max_def)

lemma peak_fold: "peak xs = fold upd_max xs 0"
proof -
  have "(\<lambda>i mx. let a = \<bar>xs ! i\<bar> in if a > mx then a else mx) = (\<lambda>i. upd_max (xs ! i))"
    by (simp add: upd_max_def fun_eq_iff)
  then have "peak xs = fold (\<lambda>i. upd_max (xs ! i)) [0..<length xs] 0"
    by (simp add: peak_def)
  then show ?thesis
    by (simp add: fold_read_index)
qed

lemma Max_insert_max:
  "finite A \<Longrightarrow> Max (insert (max a b) A) = Max (insert a (insert b A))"
  by (cases "A = {}") (simp_all add: max.assoc)

lemma fold_upd_max: "fold upd_max xs m = Max (insert m (abs ` set xs))"
  by (induction xs arbitrary: m) (simp_all add: upd_max_max Max_insert_max)

lemma peak_Max: "peak xs = Max (insert 0 (abs ` set xs))"
  by (simp add: peak_fold fold_upd_max)

lemma peak_ge: "x \<in> set xs \<Longrightarrow> \<bar>x\<bar> \<le> peak xs"
  by (simp add: peak_Max)

lemma peak_nonneg: "0 \<le> peak xs"
  by (simp add: peak_Max)

lemma peak_le: "(\<And>x. x \<in> set xs \<Longrightarrow> \<bar>x\<bar> \<le> b) \<Longrightarrow> 0 \<le> b \<Longrightarrow> peak xs \<le> b"
  by (auto simp: peak_Max)

lemma peak_scale: "0 \<le> c \<Longrightarrow> peak (map (\<lambda>x. x * c) xs) = peak xs * c"
proof -
  assume c: "0 \<le> c"
  have "fold upd_max (map (\<lambda>x. x * c) xs) (m * c) = fold upd_max xs m * c" for m
  proof (induction xs arbitrary: m)
    case Nil
    show ?case by simp
  next
    case (Cons x xs)
    have "upd_max (x * c) (m * c) = upd_max x m * c"
      using c by (simp add: upd_max_max abs_mult max_mult_distrib_right)
    with Cons [of "upd_max x m"] show ?case by simp
  qed
  from this [of 0] show ?thesis by (simp add: peak_fold)
qed

lemma normalizeSamples_eq:
  "normalizeSamples xs =
     (if peak xs > 0.99 then map (\<lambda>x. x * (0.99 / peak xs)) xs else xs)"
  by (simp add: normalizeSamples_def Let_def fold_scale_index)

lemma advance_0: "advance 0 g = g"
  by (simp add: advance_def)

lemma advance_apply: "advance n g k = g (n + k)"
  by (simp add: advance_def)

lemma advance_advance: "advance m (advance n g) = advance (n + m) g"
  by (simp add: advance_def fun_eq_iff add.assoc)

lemma random_eq: "random g = (g 0, advance 1 g)"
  by (simp add: random_def advance_def)

lemma advance_Suc: "advance (Suc 0) (advance m g) = advance (Suc m) g"
  by (simp add: advance_advance)

lemma update_written_prefix:
  "m < length buf \<Longrightarrow>
     (map f [0..<m] @ drop m buf)[m := x] = map f [0..<m] @ x # drop (Suc m) buf"
  by (simp add: list_update_append Cons_nth_drop_Suc [symmetric])

lemma fold_write_index:
  assumes body: "\<And>i a buf. i < length buf \<Longrightarrow> body i (a, buf) = (nxt i a, buf[i := out i a])"
  shows "m \<le> length buf \<Longrightarrow>
     fold body [0..<m] (a, buf) =
       (fold nxt [0..<m] a, map (\<lambda>k. out k (fold nxt [0..<k] a)) [0..<m] @ drop m buf)"
proof (induction m)
  case 0
  show ?case by simp
next
  case (Suc m)
  then have m: "m < length buf" by simp
  then have "m < length (map (\<lambda>k. out k (fold nxt [0..<k] a)) [0..<m] @ drop m buf)"
    by simp
  from body [OF this] Suc m show ?case
    by (simp add: update_written_prefix)
qed

lemma fold_draw_index:
  assumes body: "\<And>i g v buf. i < length buf \<Longrightarrow>
     body i (g, v, buf) = (advance 1 g, fst (stp (g 0) v), buf[i := snd (stp (g 0) v)])"
  shows "m \<le> length buf \<Longrightarrow>
     fold body [0..<m] (g, v, buf) =
       (advance m g, vars_after stp g v m, map (out_at stp g v) [0..<m] @ drop m buf)"
proof (induction m)
  case 0
  show ?case by (simp add: advance_0)
next
  case (Suc m)
  then have m: "m < length buf" by simp
  then have "m < length (map (out_at stp g v) [0..<m] @ drop m buf)"
    by simp
  from body [OF this]
  have "body m (advance m g, vars_after stp g v m, map (out_at stp g v) [0..<m] @ drop m buf) =
      (advance (Suc m) g, vars_after stp g v (Suc m),
       map (out_at stp g v) [0..<m] @ out_at stp g v m # drop (Suc m) buf)"
    using m by (simp add: update_written_prefix advance_Suc out_at_def advance_apply [of m g 0])
  with Suc m show ?case
    by simp
qed

lemma vars_after_add:
  "vars_after stp g v (m + k) = vars_after stp (advance m g) (vars_after stp g v m) k"
  by (induction k) (simp_all add: advance_apply)

lemma out_at_add:
  "out_at stp g v (m + k) = out_at stp (advance m g) (vars_after stp g v m) k"
  by (simp add: out_at_def vars_after_add advance_apply)

lemma map_out_at_shift:
  "map (out_at stp (advance m g) (vars_after stp g v m)) [0..<k] = map (out_at stp g v) [m..<m + k]"
  by (simp add: list_eq_iff_nth_eq out_at_add)

lemma white_body_step:
  "white_body i (g, buf) = (advance 1 g, buf[i := (g 0 * 2 - 1) * 0.5])"
  by (simp add: white_body_def random_eq)

lemma pink_body_step:
  "i < length buf \<Longrightarrow>
     pink_body i (g, v, buf) = (advance 1 g, fst (pink_step (g 0) v), buf[i := snd (pink_step (g 0) v)])"
  by (cases v) (simp add: pink_body_def pink_step_def random_eq Let_def)

lemma brown_body_step:
  "brown_body i (g, v, buf) = (advance 1 g, fst (brown_step (g 0) v), buf[i := snd (brown_step (g 0) v)])"
  by (simp add: brown_body_def brown_step_def random_eq Let_def)

lemma blue_body_step:
  "blue_body i (g, v, buf) = (advance 1 g, fst (blue_step (g 0) v), buf[i := snd (blue_step (g 0) v)])"
  by (simp add: blue_body_def blue_step_def random_eq Let_def)

lemma violet_body_step:
  "violet_body i (g, v, buf) =
     (advance 1 g, fst (violet_step (g 0) v), buf[i := snd (violet_step (g 0) v)])"
  by (cases v) (simp add: violet_body_def violet_step_def random_eq Let_def)

lemma orange_body_step:
  "orange_body i (g, v, buf) =
     (advance 1 g, fst (orange_step (g 0) v), buf[i := snd (orange_step (g 0) v)])"
  by (cases v) (simp add: orange_body_def orange_step_def random_eq Let_def)

lemma fold_advance: "fold (\<lambda>i. advance (Suc 0)) [0..<m] g = advance m g"
  by (induction m) (simp_all add: advance_0 advance_Suc)

lemma generateWhiteNoise_eq:
  "generateWhiteNoise g len = (map (\<lambda>k. (g k * 2 - 1) * 0.5) [0..<len], advance len g)"
proof -
  have "fold white_body [0..<len] (g, replicate len 0) =
      (fold (\<lambda>i. advance 1) [0..<len] g,
       map (\<lambda>k. (fold (\<lambda>i. advance 1) [0..<k] g 0 * 2 - 1) * 0.5) [0..<len] @ drop len (replicate len 0))"
    by (rule fold_write_index [where nxt = "\<lambda>i. advance 1" and out = "\<lambda>i g. (g 0 * 2 - 1) * 0.5"])
      (simp_all add: white_body_step)
  then show ?thesis
    by (simp add: generateWhiteNoise_def Float32Array_def fold_advance advance_apply)
qed

lemma generateBrownNoise_eq:
  "generateBrownNoise g len state =
     (map (out_at brown_step g (field state ''lastSample'')) [0..<len],
      [''lastSample'' \<mapsto> vars_after brown_step g (field state ''lastSample'') len],
      advance len g)"
  by (simp add: generateBrownNoise_def Float32Array_def fold_draw_index [OF brown_body_step])

lemma generateBlueNoise_eq:
  "generateBlueNoise g len state =
     (map (out_at blue_step g (field state ''lastSample'')) [0..<len],
      [''lastSample'' \<mapsto> vars_after blue_step g (field state ''lastSample'') len],
      advance len g)"
  by (simp add: generateBlueNoise_def Float32Array_def fold_draw_index [OF blue_body_step])

lemma generatePinkNoise_eq:
  "generatePinkNoise g len state =
     (map (out_at pink_step g (pink_vars state)) [0..<len],
      pink_obj (vars_after pink_step g (pink_vars state) len),
      advance len g)"
  by (simp add: generatePinkNoise_def Float32Array_def fold_draw_index [OF pink_body_step]
      pink_vars_def pink_obj_def case_prod_unfold)

lemma generateVioletNoise_eq:
  "generateVioletNoise g len state =
     (map (out_at violet_step g (violet_vars state)) [0..<len],
      violet_obj (vars_after violet_step g (violet_vars state) len),
      advance len g)"
  by (simp add: generateVioletNoise_def Float32Array_def fold_draw_index [OF violet_body_step]
      violet_vars_def violet_obj_def case_prod_unfold)

lemma generateOrangeNoise_eq:
  "generateOrangeNoise g len state =
     (map (out_at orange_step g (orange_vars state)) [0..<len],
      orange_obj (vars_after orange_step g (orange_vars state) len),
      advance len g)"
  by (simp add: generateOrangeNoise_def Float32Array_def fold_draw_index [OF orange_body_step]
      orange_vars_def orange_obj_def case_prod_unfold)

lemma pink_vars_obj: "pink_vars (Some (pink_obj v)) = v"
  by (cases v) (simp add: pink_vars_def pink_obj_def field_def)

lemma violet_vars_obj: "violet_vars (Some (violet_obj v)) = v"
  by (cases v) (simp add: violet_vars_def violet_obj_def field_def)

lemma orange_vars_obj: "orange_vars (Some (orange_obj v)) = v"
  by (cases v) (simp add: orange_vars_def orange_obj_def field_def)

lemma field_lastSample: "field (Some [''lastSample'' \<mapsto> v]) ''lastSample'' = v"
  by (simp add: field_def)

lemma less_chunks_iff:
  assumes "0 < cs"
  shows "c < nat \<lceil>real tot / real cs\<rceil> \<longleftrightarrow> c * cs < tot"
proof -
  have "c < nat \<lceil>real tot / real cs\<rceil> \<longleftrightarrow> real c < real tot / real cs"
    by (simp add: zless_nat_eq_int_zless less_ceiling_iff)
  also have "\<dots> \<longleftrightarrow> real c * real cs < real tot"
    using assms by (simp add: pos_less_divide_eq)
  also have "\<dots> \<longleftrightarrow> c * cs < tot"
    by (simp only: of_nat_mult [symmetric] of_nat_less_iff)
  finally show ?thesis .
qed

lemma set_at_chunk:
  assumes "a \<le> b" and "b \<le> tot"
  shows "set_at (map f [0..<a] @ replicate (tot - a) 0) (map f [a..<b]) a
       = Inr (map f [0..<b] @ replicate (tot - b) 0)"
proof -
  have "[0..<b] = [0..<a] @ [a..<b]"
    using upt_add_eq_append [of 0 a "b - a"] assms(1) by simp
  then have "map f [0..<a] @ map f [a..<b] = map f [0..<b]"
    by simp
  moreover have "drop (b - a) (replicate (tot - a) (0::real)) = replicate (tot - b) 0"
    using assms by simp
  ultimately show ?thesis
    using assms by (simp add: set_at_def)
qed

declare chunk_loop.simps [simp del]

lemma chunk_loop_threaded:
  fixes stp :: "real \<Rightarrow> 'v \<Rightarrow> 'v \<times> real"
  assumes disp: "\<And>g len st. dispatch ty g len st =
        Inr (map (out_at stp g (dec st)) [0..<len], enc st (vars_after stp g (dec st) len),
             advance len g)"
    and encdec: "\<And>st v. dec (enc st v) = v"
    and cs: "0 < cs"
    and chunks: "\<And>c. c < chunks \<longleftrightarrow> c * cs < tot"
  shows "n = chunks - chunk \<Longrightarrow> chunk \<le> chunks \<Longrightarrow>
     dec state = vars_after stp g0 v0 (min (chunk * cs) tot) \<Longrightarrow>
     \<exists>st'. chunk_loop cs ty tot chunks chunk
        (map (out_at stp g0 v0) [0..<min (chunk * cs) tot]
           @ replicate (tot - min (chunk * cs) tot) 0,
         state, advance (min (chunk * cs) tot) g0)
       = Inr (map (out_at stp g0 v0) [0..<tot], st', advance tot g0)"
proof (induction n arbitrary: chunk state)
  case 0
  then have "chunk = chunks" by simp
  with chunks [of chunks] have "min (chunk * cs) tot = tot" by simp
  then show ?case
    using \<open>chunk = chunks\<close> by (simp add: chunk_loop.simps [of cs ty tot chunks chunks])
next
  case (Suc n)
  then have lt: "chunk < chunks" by simp
  define a where "a = chunk * cs"
  define b where "b = min (a + cs) tot"
  have a: "a < tot" using lt chunks [of chunk] by (simp add: a_def)
  then have mina: "min (chunk * cs) tot = a" by (simp add: a_def)
  have ab: "a \<le> b" "b \<le> tot" using a by (simp_all add: b_def)
  have minb: "min (Suc chunk * cs) tot = b" "min (cs + chunk * cs) tot = b"
    by (simp_all add: a_def b_def add.commute)
  let ?f = "out_at stp g0 v0"
  let ?v = "vars_after stp g0 v0"
  have decs: "dec state = ?v a" using Suc.prems(3) by (simp add: mina)
  have "map (out_at stp (advance a g0) (?v a)) [0..<b - a] = map ?f [a..<a + (b - a)]"
    by (rule map_out_at_shift)
  then have outs: "map (out_at stp (advance a g0) (?v a)) [0..<b - a] = map ?f [a..<b]"
    using ab by simp
  have "vars_after stp (advance a g0) (?v a) (b - a) = ?v (a + (b - a))"
    by (simp add: vars_after_add)
  then have vars: "vars_after stp (advance a g0) (?v a) (b - a) = ?v b"
    using ab by simp
  have adv: "advance (b - a) (advance a g0) = advance b g0"
    using ab by (simp add: advance_advance)
  have d: "dispatch ty (advance a g0) (b - a) state
      = Inr (map ?f [a..<b], enc state (?v b), advance b g0)"
    by (simp add: disp decs outs vars adv)
  have "Suc n - 1 = chunks - Suc chunk" "Suc chunk \<le> chunks"
    using Suc.prems lt by simp_all
  then have "\<exists>st'. chunk_loop cs ty tot chunks (Suc chunk)
        (map ?f [0..<min (Suc chunk * cs) tot] @ replicate (tot - min (Suc chunk * cs) tot) 0,
         enc state (?v b), advance (min (Suc chunk * cs) tot) g0)
       = Inr (map ?f [0..<tot], st', advance tot g0)"
    by (intro Suc.IH) (simp_all add: encdec minb)
  then obtain st' where "chunk_loop cs ty tot chunks (Suc chunk)
        (map ?f [0..<b] @ replicate (tot - b) 0, enc state (?v b), advance b g0)
       = Inr (map ?f [0..<tot], st', advance tot g0)"
    by (auto simp: minb)
  then have "chunk_loop cs ty tot chunks chunk
        (map ?f [0..<a] @ replicate (tot - a) 0, state, advance a g0)
       = Inr (map ?f [0..<tot], st', advance tot g0)"
    using lt d set_at_chunk [OF ab, of ?f]
    by (subst chunk_loop.simps) (simp add: a_def [symmetric] b_def [symmetric])
  then show ?case by (auto simp: mina)
qed

lemma generateSamples_threaded:
  fixes stp :: "real \<Rightarrow> 'v \<Rightarrow> 'v \<times> real"
  assumes disp: "\<And>g len st. dispatch ty g len st =
        Inr (map (out_at stp g (dec st)) [0..<len], enc st (vars_after stp g (dec st) len),
             advance len g)"
    and encdec: "\<And>st v. dec (enc st v) = v"
    and cs: "0 < cs"
  shows "\<exists>samples state g'. dispatch ty g n None = Inr (samples, state, g') \<and>
     generateSamples cs maxLength ty (int n) g =
       (if n \<le> maxLength then ([n], Inr samples) else ([], Inl RangeError))"
proof -
  let ?chunks = "nat \<lceil>real_of_int (int n) / real cs\<rceil>"
  have "\<exists>st'. chunk_loop cs ty n ?chunks 0
        (map (out_at stp g (dec None)) [0..<min (0 * cs) n] @ replicate (n - min (0 * cs) n) 0,
         None, advance (min (0 * cs) n) g)
       = Inr (map (out_at stp g (dec None)) [0..<n], st', advance n g)"
    by (rule chunk_loop_threaded [where dec = dec and enc = enc, OF disp encdec cs])
      (simp_all add: less_chunks_iff [OF cs])
  then obtain st' where "chunk_loop cs ty n ?chunks 0 (replicate n 0, None, g)
       = Inr (map (out_at stp g (dec None)) [0..<n], st', advance n g)"
    by (auto simp: advance_0)
  then have "generateSamples cs maxLength ty (int n) g =
      (if n \<le> maxLength then ([n], Inr (map (out_at stp g (dec None)) [0..<n]))
       else ([], Inl RangeError))"
    by (simp add: generateSamples_def Float32Array_def)
  with disp [of g n None] show ?thesis
    by simp
qed

lemma dispatch_white:
  "dispatch ''white'' g len st =
     Inr (map (out_at white_step g ()) [0..<len], st, advance len g)"
  by (simp add: dispatch_def generateWhiteNoise_eq out_at_def white_step_def)

lemma dispatch_pink:
  "dispatch ''pink'' g len st =
     Inr (map (out_at pink_step g (pink_vars st)) [0..<len],
          Some (pink_obj (vars_after pink_step g (pink_vars st) len)), advance len g)"
  by (simp add: dispatch_def generatePinkNoise_eq)

lemma dispatch_brown:
  "dispatch ''brown'' g len st =
     Inr (map (out_at brown_step g (field st ''lastSample'')) [0..<len],
          Some [''lastSample'' \<mapsto> vars_after brown_step g (field st ''lastSample'') len],
          advance len g)"
  by (simp add: dispatch_def generateBrownNoise_eq)

lemma dispatch_blue:
  "dispatch ''blue'' g len st =
     Inr (map (out_at blue_step g (field st ''lastSample'')) [0..<len],
          Some [''lastSample'' \<mapsto> vars_after blue_step g (field st ''lastSample'') len],
          advance len g)"
  by (simp add: dispatch_def generateBlueNoise_eq)

lemma dispatch_violet:
  "dispatch ''violet'' g len st =
     Inr (map (out_at violet_step g (violet_vars st)) [0..<len],
          Some (violet_obj (vars_after violet_step g (violet_vars st) len)), advance len g)"
  by (simp add: dispatch_def generateVioletNoise_eq)

lemma dispatch_orange:
  "dispatch ''orange'' g len st =
     Inr (map (out_at orange_step g (orange_vars st)) [0..<len],
          Some (orange_obj (vars_after orange_step g (orange_vars st) len)), advance len g)"
  by (simp add: dispatch_def generateOrangeNoise_eq)

lemma upt_Suc_shift: "[0..<Suc n] = 0 # map Suc [0..<n]"
  by (simp add: upt_conv_Cons map_Suc_upt del: upt_Suc)

lemma run_filter_index:
  assumes sim: "\<And>r v. stp2 (f r) (\<alpha> v) = (\<alpha> (fst (stp r v)), snd (stp r v))"
  shows "run_filter stp2 (\<alpha> v) (map (\<lambda>k. f (g k)) [0..<n])
       = (map (out_at stp g v) [0..<n], \<alpha> (vars_after stp g v n))"
proof (induction n arbitrary: g v)
  case 0
  show ?case by simp
next
  case (Suc n)
  let ?v = "fst (stp (g 0) v)"
  have v1: "vars_after stp g v (1 + k) = vars_after stp (advance 1 g) ?v k" for k
    by (simp only: vars_after_add) simp
  have o1: "out_at stp g v (1 + k) = out_at stp (advance 1 g) ?v k" for k
    by (simp only: out_at_add) simp
  have "map (\<lambda>k. f (g k)) [0..<Suc n] = f (g 0) # map (\<lambda>k. f (advance 1 g k)) [0..<n]"
    by (simp only: upt_Suc_shift) (simp add: advance_apply comp_def)
  moreover have "map (out_at stp g v) [0..<Suc n]
      = snd (stp (g 0) v) # map (out_at stp (advance 1 g) ?v) [0..<n]"
    using o1 by (simp only: upt_Suc_shift) (simp add: comp_def out_at_def)
  moreover have "vars_after stp g v (Suc n) = vars_after stp (advance 1 g) ?v n"
    using v1 [of n] by simp
  ultimately show ?case
    using Suc.IH [where g = "advance 1 g" and v = ?v]
    by (simp add: sim del: upt_Suc vars_after.simps)
qed

lemma spec_pink_step_sim:
  "spec_pink_step (r * 2 - 1) (pink_poles v)
     = (pink_poles (fst (pink_step r v)), snd (pink_step r v))"
proof (cases v)
  case (fields b0 b1 b2 b3 b4 b5 b6)
  define white where "white = (r * 2 - 1) * 0.5"
  have w: "(r * 2 - 1) * 0.5 = white" "(r * 2 - 1) * 5 / 10 = white" "(r * 2 - 1) / 2 = white"
    by (simp_all add: white_def)
  have b5: "- 0.7616 * b5 + white * - 0.0168980 = - 0.7616 * b5 - white * 0.0168980"
    by simp
  show ?thesis
    unfolding fields spec_pink_step_def pink_step_def pink_poles_def kellet_coefficients_def
      Let_def
    by (simp only: w prod.case list.map zip_Cons_Cons zip_Nil sum_list.Cons sum_list.Nil
        fst_conv snd_conv b5 add.assoc add_0_right)
qed

lemma spec_grey_step_sim: "spec_grey_step x v = (fst (grey_step x v), snd (grey_step x v))"
  by (cases v) (simp add: spec_grey_step_def grey_step_def Let_def field_simps)

lemma fold_next_vars: "fold (\<lambda>i v. fst (stp (h i) v)) [0..<m] v = vars_after stp h v m"
  by (induction m) simp_all

lemma grey_body_step:
  "grey_body i (g, buf) = (advance 1 g, buf[i := (g 0 * 2 - 1) * 0.5 * 0.7 * 0.6])"
  by (simp add: grey_body_def random_eq Let_def)

lemma grey_filter_body_step:
  "grey_filter_body xs i (v, buf) = (fst (grey_step (xs ! i) v), buf[i := snd (grey_step (xs ! i) v)])"
  by (cases v) (simp add: grey_filter_body_def grey_step_def Let_def)

lemma generateGreyNoise_eq:
  "generateGreyNoise g len =
     (fst (run_filter spec_grey_step (0, 0)
             (map (\<lambda>k. (g k * 2 - 1) * 0.5 * (0.7 * 0.6)) [0..<len])),
      advance len g)"
proof -
  define xs where "xs = map (\<lambda>k. (g k * 2 - 1) * 0.5 * 0.7 * 0.6) [0..<len]"
  have "fold grey_body [0..<len] (g, replicate len 0) =
      (fold (\<lambda>i. advance 1) [0..<len] g,
       map (\<lambda>k. (fold (\<lambda>i. advance 1) [0..<k] g 0 * 2 - 1) * 0.5 * 0.7 * 0.6) [0..<len]
         @ drop len (replicate len 0))"
    by (rule fold_write_index
          [where nxt = "\<lambda>i. advance 1" and out = "\<lambda>i g. (g 0 * 2 - 1) * 0.5 * 0.7 * 0.6"])
      (simp_all add: grey_body_step)
  then have first: "fold grey_body [0..<len] (g, replicate len 0) = (advance len g, xs)"
    by (simp add: fold_advance advance_apply xs_def)
  have "fold (grey_filter_body xs) [0..<len] ((0, 0), replicate len 0) =
      (fold (\<lambda>i v. fst (grey_step (xs ! i) v)) [0..<len] (0, 0),
       map (\<lambda>k. snd (grey_step (xs ! k) (fold (\<lambda>i v. fst (grey_step (xs ! i) v)) [0..<k] (0, 0))))
         [0..<len] @ drop len (replicate len 0))"
    by (rule fold_write_index
          [where nxt = "\<lambda>i v. fst (grey_step (xs ! i) v)"
             and out = "\<lambda>i v. snd (grey_step (xs ! i) v)"])
      (simp_all add: grey_filter_body_step)
  then have second: "fold (grey_filter_body xs) [0..<len] ((0, 0), replicate len 0) =
      (vars_after grey_step ((!) xs) (0, 0) len, map (out_at grey_step ((!) xs) (0, 0)) [0..<len])"
    by (simp add: fold_next_vars out_at_def)
  have run: "run_filter spec_grey_step (0, 0) (map (\<lambda>k. xs ! k) [0..<len])
      = (map (out_at grey_step ((!) xs) (0, 0)) [0..<len], vars_after grey_step ((!) xs) (0, 0) len)"
    by (rule run_filter_index [where f = "\<lambda>x. x" and \<alpha> = "\<lambda>v. v"]) (rule spec_grey_step_sim)
  have nth: "map (\<lambda>k. xs ! k) [0..<len] = xs"
    using map_nth [of xs] by (simp add: xs_def)
  have xs: "map (\<lambda>k. (g k * 2 - 1) * 0.5 * (0.7 * 0.6)) [0..<len] = xs"
    by (simp add: xs_def)
  have "fst (run_filter spec_grey_step (0, 0)
        (map (\<lambda>k. (g k * 2 - 1) * 0.5 * (0.7 * 0.6)) [0..<len]))
      = map (out_at grey_step ((!) xs) (0, 0)) [0..<len]"
    using run by (simp only: xs nth fst_conv)
  moreover have "generateGreyNoise g len
      = (map (out_at grey_step ((!) xs) (0, 0)) [0..<len], advance len g)"
    using first second by (simp add: generateGreyNoise_def Float32Array_def)
  ultimately show ?thesis
    by (simp only:)
qed

lemma dispatch_grey:
  "dispatch ''grey'' g len state =
     Inr (fst (generateGreyNoise g len), state, snd (generateGreyNoise g len))"
  by (simp add: dispatch_def case_prod_unfold Let_def)

section \<open>The encoder\<close>

lemma length_le_bytes: "length (le_bytes k v) = k"
  by (simp add: le_bytes_def)

lemma ArrayBuffer_filled: "ArrayBuffer n = filled [] n"
  by (simp add: ArrayBuffer_def filled_def)

lemma write_bytes_filled:
  "offset = length written \<Longrightarrow> length bs \<le> rest \<Longrightarrow>
     write_bytes (filled written rest) offset bs = Some (filled (written @ bs) (rest - length bs))"
proof -
  assume a: "offset = length written" "length bs \<le> rest"
  then have "drop (length bs) (replicate rest (0::byte)) = replicate (rest - length bs) 0"
    by simp
  with a show ?thesis
    by (simp add: write_bytes_def filled_def)
qed

lemma setUint8_filled:
  "offset = length written \<Longrightarrow> 1 \<le> rest \<Longrightarrow>
     setUint8 (filled written rest) offset v = Some (filled (written @ le_bytes 1 v) (rest - 1))"
  by (simp add: setUint8_def write_bytes_filled length_le_bytes)

lemma setUint16_filled:
  "offset = length written \<Longrightarrow> 2 \<le> rest \<Longrightarrow>
     setUint16 (filled written rest) offset v = Some (filled (written @ le_bytes 2 v) (rest - 2))"
  by (simp add: setUint16_def write_bytes_filled length_le_bytes)

lemma setUint32_filled:
  "offset = length written \<Longrightarrow> 4 \<le> rest \<Longrightarrow>
     setUint32 (filled written rest) offset v = Some (filled (written @ le_bytes 4 v) (rest - 4))"
  by (simp add: setUint32_def write_bytes_filled length_le_bytes)

lemma setInt16_filled:
  "offset = length written \<Longrightarrow> 2 \<le> rest \<Longrightarrow>
     setInt16 (filled written rest) offset x
       = Some (filled (written @ le_bytes 2 (js_trunc x)) (rest - 2))"
  by (simp add: setInt16_def write_bytes_filled length_le_bytes)

lemma writeString_prefix:
  "offset = length written \<Longrightarrow> m \<le> length str \<Longrightarrow> length str \<le> rest \<Longrightarrow>
     fold (\<lambda>i view. do { view \<leftarrow> view; setUint8 view (offset + i) (of_char (str ! i)) })
       [0..<m] (Some (filled written rest))
     = Some (filled (written @ concat (map (\<lambda>c. le_bytes 1 (of_char c)) (take m str))) (rest - m))"
proof (induction m)
  case 0
  show ?case by simp
next
  case (Suc m)
  then have "length (written @ concat (map (\<lambda>c. le_bytes 1 (of_char c)) (take m str))) = offset + m"
    by (simp add: length_concat comp_def length_le_bytes sum_list_triv)
  with Suc show ?case
    by (simp add: setUint8_filled take_Suc_conv_app_nth)
qed

lemma writeString_filled:
  "offset = length written \<Longrightarrow> length str \<le> rest \<Longrightarrow>
     writeString (filled written rest) offset str
       = Some (filled (written @ concat (map (\<lambda>c. le_bytes 1 (of_char c)) str)) (rest - length str))"
  by (simp add: writeString_def writeString_prefix)

lemma length_ascii: "length (ascii str) = length str"
  by (simp add: ascii_def length_concat comp_def length_le_bytes sum_list_triv)

lemma writeString_ascii:
  "offset = length written \<Longrightarrow> length str \<le> rest \<Longrightarrow>
     writeString (filled written rest) offset str
       = Some (filled (written @ ascii str) (rest - length str))"
  by (simp add: writeString_filled ascii_def)

lemma length_written_header: "length (written_header sampleRate len) = 44"
  by (simp add: written_header_def length_ascii length_le_bytes)

lemma pcm_body_filled:
  assumes "length written = offset" and "2 \<le> rest"
  shows "pcm_body samples i (Some (offset, filled written rest))
       = Some (offset + 2, filled (written @ written_sample (samples ! i)) (rest - 2))"
  using assms
  by (simp add: pcm_body_def setInt16_filled written_sample_def intSample_def Let_def)

lemma length_written_samples: "length (concat (map written_sample xs)) = length xs * 2"
  by (induction xs) (simp_all add: written_sample_def length_le_bytes)

lemma pcm_loop_filled:
  "m \<le> length samples \<Longrightarrow> length written = 44 \<Longrightarrow>
     fold (pcm_body samples) [0..<m] (Some (44, filled written (length samples * 2)))
     = Some (44 + m * 2,
             filled (written @ concat (map written_sample (take m samples)))
               (length samples * 2 - m * 2))"
proof (induction m)
  case 0
  show ?case by simp
next
  case (Suc m)
  let ?w = "written @ concat (map written_sample (take m samples))"
  have m: "m < length samples" using Suc.prems by simp
  have "length ?w = 44 + m * 2"
    using Suc.prems m by (simp add: length_written_samples)
  moreover have "2 \<le> length samples * 2 - m * 2"
    using m by simp
  ultimately have body: "pcm_body samples m (Some (44 + m * 2, filled ?w (length samples * 2 - m * 2)))
      = Some (44 + m * 2 + 2, filled (?w @ written_sample (samples ! m))
          (length samples * 2 - m * 2 - 2))"
    by (rule pcm_body_filled)
  have rest: "length samples * 2 - m * 2 - 2 = length samples * 2 - Suc m * 2"
    by simp
  have app: "?w @ written_sample (samples ! m)
      = written @ concat (map written_sample (take (Suc m) samples))"
    using m by (simp add: take_Suc_conv_app_nth)
  have IH: "fold (pcm_body samples) [0..<m] (Some (44, filled written (length samples * 2)))
      = Some (44 + m * 2, filled ?w (length samples * 2 - m * 2))"
    using Suc.IH Suc.prems m by simp
  have "fold (pcm_body samples) [0..<Suc m] (Some (44, filled written (length samples * 2)))
      = pcm_body samples m
          (fold (pcm_body samples) [0..<m] (Some (44, filled written (length samples * 2))))"
    by simp
  also have "\<dots> = Some (44 + m * 2 + 2, filled (?w @ written_sample (samples ! m))
          (length samples * 2 - m * 2 - 2))"
    by (simp only: IH body)
  also have "\<dots> = Some (44 + Suc m * 2,
             filled (written @ concat (map written_sample (take (Suc m) samples)))
               (length samples * 2 - Suc m * 2))"
    by (simp only: rest app) simp
  finally show ?case .
qed

lemma createWavFile_eq:
  "createWavFile samples sampleRate
     = Some (written_header sampleRate (length samples) @ concat (map written_sample samples))"
proof -
  have "fold (pcm_body samples) [0..<length samples]
          (Some (44, filled (written_header sampleRate (length samples)) (length samples * 2)))
        = Some (44 + length samples * 2,
             filled (written_header sampleRate (length samples)
                      @ concat (map written_sample (take (length samples) samples)))
               (length samples * 2 - length samples * 2))"
    by (rule pcm_loop_filled) (simp_all add: length_written_header)
  then have loop: "fold (pcm_body samples) [0..<length samples]
          (Some (44, filled (written_header sampleRate (length samples)) (length samples * 2)))
        = Some (44 + length samples * 2,
             written_header sampleRate (length samples) @ concat (map written_sample samples))"
    by (simp add: filled_def)
  show ?thesis
    unfolding createWavFile_def Let_def ArrayBuffer_filled
    by (simp add: writeString_ascii setUint32_filled setUint16_filled length_ascii
        length_le_bytes loop [unfolded written_header_def] written_header_def
        del: of_nat_add of_nat_mult of_nat_numeral)
qed

lemma byte_of_nat_mod: "(of_nat (m mod 256) :: byte) = of_nat m"
  by (simp add: word_of_nat_eq_iff take_bit_eq_mod)

lemma le_bytes_uint_le: "le_bytes k (int n) = uint_le k n"
proof -
  have "(word_of_int (int n div 256 ^ j) :: byte) = of_nat (n div 256 ^ j mod 256)" for j
  proof -
    have "int n div 256 ^ j = int (n div 256 ^ j)"
      by (simp add: zdiv_int)
    then show ?thesis
      by (simp only: of_int_of_nat_eq byte_of_nat_mod)
  qed
  then show ?thesis
    by (simp add: le_bytes_def uint_le_def)
qed

lemma ascii_literals:
  "ascii ''RIFF'' = map of_char ''RIFF''" "ascii ''WAVE'' = map of_char ''WAVE''"
  "ascii ''fmt '' = map of_char ''fmt ''" "ascii ''data'' = map of_char ''data''"
  by (simp_all add: ascii_def le_bytes_def)

lemma written_header_spec:
  "written_header sampleRate len = spec_header sampleRate (len * 2)"
proof -
  have "le_bytes 4 16 = uint_le 4 16" "le_bytes 2 1 = uint_le 2 1" "le_bytes 2 16 = uint_le 2 16"
    using le_bytes_uint_le [of 4 16] le_bytes_uint_le [of 2 1] le_bytes_uint_le [of 2 16]
    by simp_all
  then show ?thesis
    by (simp add: written_header_def spec_header_def CHANNELS_def ascii_literals
        le_bytes_uint_le del: of_nat_add of_nat_mult of_nat_numeral map_eq_conv)
qed

lemma sum_digits:
  "sum_list (map (\<lambda>j. (n div 256 ^ j mod 256) * 256 ^ j) [0..<k]) = (n::nat) mod 256 ^ k"
proof (induction k)
  case 0
  show ?case by simp
next
  case (Suc k)
  have "n mod (256 ^ k * 256) = 256 ^ k * (n div 256 ^ k mod 256) + n mod 256 ^ k"
    by (rule mod_mult2_eq)
  with Suc show ?case by (simp add: mult.commute)
qed

lemma read_uint_le_at:
  assumes "length pre = offset"
  shows "read_uint_le (pre @ uint_le k n @ post) offset k = n mod 256 ^ k"
proof -
  have "unat ((pre @ uint_le k n @ post) ! (offset + j)) = n div 256 ^ j mod 256" if "j < k" for j
  proof -
    have "(pre @ uint_le k n @ post) ! (offset + j) = uint_le k n ! j"
      using assms that by (simp add: nth_append uint_le_def)
    also have "\<dots> = of_nat (n div 256 ^ j mod 256)"
      using that by (simp add: uint_le_def)
    finally show ?thesis
      by (simp add: unat_of_nat)
  qed
  then have "map (\<lambda>j. unat ((pre @ uint_le k n @ post) ! (offset + j)) * 256 ^ j) [0..<k]
      = map (\<lambda>j. (n div 256 ^ j mod 256) * 256 ^ j) [0..<k]"
    by simp
  then show ?thesis
    by (simp only: read_uint_le_def sum_digits)
qed

lemma length_spec_header: "length (spec_header sampleRate dataBytes) = 44"
  by (simp add: spec_header_def uint_le_def)

lemma read_uint_le_field:
  "bytes = pre @ uint_le k n @ post \<Longrightarrow> length pre = offset \<Longrightarrow>
     read_uint_le bytes offset k = n mod 256 ^ k"
  by (simp only: read_uint_le_at)

lemma decode_spec_header:
  assumes "sampleRate < 2 ^ 32" and "dataBytes < 2 ^ 32"
  shows "decode_header (spec_header sampleRate dataBytes @ data) = (sampleRate, 1, 16, dataBytes)"
proof -
  let ?h = "spec_header sampleRate dataBytes @ data"
  have "read_uint_le ?h 24 4 = sampleRate mod 256 ^ 4"
    by (rule read_uint_le_field [where pre = "map of_char ''RIFF'' @ uint_le 4 (36 + dataBytes) @
        map of_char ''WAVE'' @ map of_char ''fmt '' @ uint_le 4 16 @ uint_le 2 1 @ uint_le 2 1"
        and post = "uint_le 4 (sampleRate * 1 * 2) @ uint_le 2 (1 * 2) @ uint_le 2 16 @
          map of_char ''data'' @ uint_le 4 dataBytes @ data"])
      (simp_all add: spec_header_def uint_le_def)
  moreover have "read_uint_le ?h 22 2 = 1 mod 256 ^ 2"
    by (rule read_uint_le_field [where pre = "map of_char ''RIFF'' @ uint_le 4 (36 + dataBytes) @
        map of_char ''WAVE'' @ map of_char ''fmt '' @ uint_le 4 16 @ uint_le 2 1"
        and post = "uint_le 4 sampleRate @ uint_le 4 (sampleRate * 1 * 2) @ uint_le 2 (1 * 2) @
          uint_le 2 16 @ map of_char ''data'' @ uint_le 4 dataBytes @ data"])
      (simp_all add: spec_header_def uint_le_def)
  moreover have "read_uint_le ?h 34 2 = 16 mod 256 ^ 2"
    by (rule read_uint_le_field [where pre = "map of_char ''RIFF'' @ uint_le 4 (36 + dataBytes) @
        map of_char ''WAVE'' @ map of_char ''fmt '' @ uint_le 4 16 @ uint_le 2 1 @ uint_le 2 1 @
        uint_le 4 sampleRate @ uint_le 4 (sampleRate * 1 * 2) @ uint_le 2 (1 * 2)"
        and post = "map of_char ''data'' @ uint_le 4 dataBytes @ data"])
      (simp_all add: spec_header_def uint_le_def)
  moreover have "read_uint_le ?h 40 4 = dataBytes mod 256 ^ 4"
    by (rule read_uint_le_field [where pre = "map of_char ''RIFF'' @ uint_le 4 (36 + dataBytes) @
        map of_char ''WAVE'' @ map of_char ''fmt '' @ uint_le 4 16 @ uint_le 2 1 @ uint_le 2 1 @
        uint_le 4 sampleRate @ uint_le 4 (sampleRate * 1 * 2) @ uint_le 2 (1 * 2) @ uint_le 2 16 @
        map of_char ''data''"
        and post = data])
      (simp_all add: spec_header_def uint_le_def)
  ultimately show ?thesis
    using assms by (simp add: decode_header_def)
qed

lemma written_sample_spec: "written_sample x = le_bytes 2 (spec_pcm16 x)"
proof -
  have "max (- 1) (min 1 x) = spec_clamp x"
    by (simp add: spec_clamp_def max_def min_def)
  moreover have "js_trunc y = spec_truncate y" for y
    by (simp add: js_trunc_def spec_truncate_def ceiling_def)
  ultimately show ?thesis
    by (simp add: written_sample_def intSample_def spec_pcm16_def Let_def)
qed

lemma spec_pcm16_range: "- 32768 \<le> spec_pcm16 x \<and> spec_pcm16 x \<le> 32767"
proof -
  define c where "c = spec_clamp x"
  have c: "- 1 \<le> c" "c \<le> 1" by (simp_all add: c_def spec_clamp_def)
  show ?thesis
  proof (cases "c < 0")
    case True
    then have "spec_pcm16 x = - \<lfloor>- (c * 32768)\<rfloor>"
      by (simp add: spec_pcm16_def c_def [symmetric] spec_truncate_def mult_less_0_iff)
    moreover have "0 \<le> - (c * 32768)" "- (c * 32768) \<le> 32768"
      using True c by simp_all
    then have "0 \<le> \<lfloor>- (c * 32768)\<rfloor>" "\<lfloor>- (c * 32768)\<rfloor> \<le> 32768"
      by (simp_all only: zero_le_floor floor_le_iff)
    ultimately show ?thesis by linarith
  next
    case False
    then have "spec_pcm16 x = \<lfloor>c * 32767\<rfloor>"
      by (simp add: spec_pcm16_def c_def [symmetric] spec_truncate_def)
    moreover have "0 \<le> c * 32767" "c * 32767 \<le> 32767"
      using False c by simp_all
    then have "0 \<le> \<lfloor>c * 32767\<rfloor>" "\<lfloor>c * 32767\<rfloor> \<le> 32767"
      by (simp_all only: zero_le_floor floor_le_iff)
    ultimately show ?thesis by linarith
  qed
qed

lemma unat_byte_of_int: "unat (word_of_int v :: byte) = nat (v mod 256)"
  by (simp add: unat_eq_nat_uint uint_word_of_int take_bit_eq_mod)

lemma two_bytes: "int (nat (v mod 256) + nat (v div 256 mod 256) * 256) = v mod 65536"
proof -
  have "v mod (256 * 256) = 256 * (v div 256 mod 256) + v mod 256"
    by (rule zmod_zmult2_eq) simp
  then show ?thesis by simp
qed

lemma le_bytes_2: "le_bytes 2 v = [word_of_int v, word_of_int (v div 256)]"
  by (simp add: le_bytes_def numeral_2_eq_2)

lemma read_uint_le_2:
  "read_uint_le bytes offset 2 = unat (bytes ! offset) + unat (bytes ! (offset + 1)) * 256"
  by (simp add: read_uint_le_def numeral_2_eq_2)

lemma mod_65536_negative: "- 32768 \<le> v \<Longrightarrow> v < 0 \<Longrightarrow> v mod 65536 = v + (65536::int)"
proof -
  assume a: "- 32768 \<le> v" "v < 0"
  have "(v + 65536) mod 65536 = v + 65536"
    using a by (intro mod_pos_pos_trivial) simp_all
  then show ?thesis by simp
qed

lemma read_int16_le_written:
  assumes "- 32768 \<le> v" and "v \<le> 32767"
  shows "read_int16_le (le_bytes 2 v) 0 = v"
proof -
  have "int (read_uint_le (le_bytes 2 v) 0 2) = v mod 65536"
    by (simp only: le_bytes_2 read_uint_le_2 unat_byte_of_int two_bytes nth_Cons_0
        add_0 One_nat_def nth_Cons_Suc)
  moreover have "v mod 65536 = (if v < 0 then v + 65536 else v)"
    using assms by (simp add: mod_65536_negative)
  ultimately have u: "int (read_uint_le (le_bytes 2 v) 0 2) = (if v < 0 then v + 65536 else v)"
    by simp
  show ?thesis
  proof (cases "v < 0")
    case True
    with u assms show ?thesis
      by (simp add: read_int16_le_def Let_def)
  next
    case False
    with u assms show ?thesis
      by (simp add: read_int16_le_def Let_def)
  qed
qed

lemma upt_0_4: "[0..<4] = [0, 1, 2, 3]"
  by code_simp

lemma upt_0_2: "[0..<2] = [0, 1]"
  by code_simp

section \<open>Rounding to a double, and the sample count\<close>

lemma round_even_nearest: "\<bar>q - of_int m\<bar> < 1 / 2 \<Longrightarrow> round_even q = m"
proof -
  assume a: "\<bar>q - of_int m\<bar> < 1 / 2"
  then have "of_int (m - 1) \<le> q" "q < of_int (m + 1)"
    by (simp_all only: abs_less_iff of_int_diff of_int_add of_int_1) linarith+
  then have "m - 1 \<le> \<lfloor>q\<rfloor>" "\<lfloor>q\<rfloor> < m + 1"
    by (simp_all only: le_floor_iff floor_less_iff)
  then have "\<lfloor>q\<rfloor> = m - 1 \<or> \<lfloor>q\<rfloor> = m"
    by linarith
  then show ?thesis
  proof
    assume f: "\<lfloor>q\<rfloor> = m - 1"
    have "1 / 2 < q - of_int (m - 1)"
      using a by (simp only: abs_less_iff of_int_diff of_int_1) linarith
    with f show ?thesis
      by (simp add: round_even_def Let_def)
  next
    assume f: "\<lfloor>q\<rfloor> = m"
    have "q - of_int m < 1 / 2"
      using a by (simp only: abs_less_iff)
    with f show ?thesis
      by (simp add: round_even_def Let_def)
  qed
qed

lemma round_even_bounds: "\<lfloor>q\<rfloor> \<le> round_even q \<and> round_even q \<le> \<lfloor>q\<rfloor> + 1"
  by (simp add: round_even_def Let_def)

lemma floor_log2:
  assumes "0 < y" and "2 powr of_int e \<le> y" and "y < 2 powr of_int (e + 1)"
  shows "\<lfloor>log 2 y\<rfloor> = e"
proof -
  have "of_int e \<le> log 2 y"
    using assms(1,2) by (simp add: le_log_iff)
  moreover have "log 2 y < of_int (e + 1)"
    using assms(1,3) by (simp add: log_less_iff)
  ultimately show ?thesis
    by (simp add: floor_eq_iff)
qed

lemma double_round_zero: "double_round 0 = 0"
  by (simp add: double_round_def)

lemma double_round_eval:
  assumes "0 < x" and "2 powr of_int e \<le> x" and "x < 2 powr of_int (e + 1)"
    and "\<bar>x / 2 powr of_int (e - 52) - of_int m\<bar> < 1 / 2"
  shows "double_round x = of_int m * 2 powr of_int (e - 52)"
proof -
  have "\<lfloor>log 2 \<bar>x\<bar>\<rfloor> = e"
    using assms(1-3) by (simp add: floor_log2)
  moreover have "round_even (x / 2 powr of_int (e - 52)) = m"
    using assms(4) by (rule round_even_nearest)
  ultimately show ?thesis
    using assms(1) by (simp add: double_round_def Let_def)
qed

lemma scaled_magnitude:
  assumes "x \<noteq> 0"
  shows "2 ^ 52 \<le> \<bar>x\<bar> / 2 powr of_int (\<lfloor>log 2 \<bar>x\<bar>\<rfloor> - 52)"
proof -
  let ?e = "\<lfloor>log 2 \<bar>x\<bar>\<rfloor>"
  let ?p = "(2::real) powr of_int (?e - 52)"
  have "2 powr of_int ?e \<le> 2 powr log 2 \<bar>x\<bar>"
    by simp
  then have "2 powr of_int ?e \<le> \<bar>x\<bar>"
    using assms by simp
  moreover have "2 ^ 52 * ?p = 2 powr of_int ?e"
    using powr_add [of "2::real" 52 "of_int ?e - 52"] by simp
  ultimately have "2 ^ 52 * ?p \<le> \<bar>x\<bar>"
    by (simp only:)
  then show ?thesis
    by (simp only: pos_le_divide_eq [of ?p] powr_gt_zero)
qed

lemma double_round_negative: "x < 0 \<Longrightarrow> double_round x < 0"
proof -
  assume x: "x < 0"
  let ?p = "(2::real) powr of_int (\<lfloor>log 2 \<bar>x\<bar>\<rfloor> - 52)"
  have "2 ^ 52 \<le> \<bar>x\<bar> / ?p"
    using x by (intro scaled_magnitude) simp
  then have "x / ?p \<le> - (2 ^ 52)"
    using x by (simp add: abs_if)
  then have "x / ?p < of_int (- 1)"
    by simp
  then have "\<lfloor>x / ?p\<rfloor> < - 1"
    by (simp only: floor_less_iff)
  then have "\<lfloor>x / ?p\<rfloor> + 1 < 0"
    by simp
  with round_even_bounds [of "x / ?p"] have "round_even (x / ?p) < 0"
    by linarith
  then have "of_int (round_even (x / ?p)) * ?p < 0"
    by (simp add: mult_less_0_iff)
  then show ?thesis
    using x by (simp add: double_round_def Let_def)
qed

lemma double_round_nonneg: "0 \<le> x \<Longrightarrow> 0 \<le> double_round x"
proof (cases "x = 0")
  case True
  then show ?thesis by (simp add: double_round_zero)
next
  case False
  assume "0 \<le> x"
  with False have x: "0 < x" by simp
  let ?p = "(2::real) powr of_int (\<lfloor>log 2 \<bar>x\<bar>\<rfloor> - 52)"
  have "2 ^ 52 \<le> \<bar>x\<bar> / ?p"
    using False by (rule scaled_magnitude)
  then have "0 \<le> x / ?p"
    using x by simp
  then have "0 \<le> \<lfloor>x / ?p\<rfloor>"
    by simp
  with round_even_bounds [of "x / ?p"] have "0 \<le> round_even (x / ?p)"
    by linarith
  then have "0 \<le> of_int (round_even (x / ?p)) * ?p"
    by simp
  then show ?thesis
    using x by (simp add: double_round_def Let_def)
qed

lemma sample_count_negative: "duration < 0 \<Longrightarrow> sample_count duration < 0"
proof -
  assume "duration < 0"
  then have "double_round (duration * 60) < 0"
    by (intro double_round_negative) simp
  then have "real SAMPLE_RATE * double_round (duration * 60) < 0"
    by (simp add: SAMPLE_RATE_def)
  then have "double_round (real SAMPLE_RATE * double_round (duration * 60)) < 0"
    by (rule double_round_negative)
  then show ?thesis
    by (simp only: sample_count_def floor_less_zero)
qed

lemma sample_count_nonneg: "0 \<le> duration \<Longrightarrow> 0 \<le> sample_count duration"
proof -
  assume "0 \<le> duration"
  then have "0 \<le> double_round (duration * 60)"
    by (intro double_round_nonneg) simp
  then have "0 \<le> real SAMPLE_RATE * double_round (duration * 60)"
    by simp
  then have "0 \<le> double_round (real SAMPLE_RATE * double_round (duration * 60))"
    by (rule double_round_nonneg)
  then show ?thesis
    by (simp only: sample_count_def zero_le_floor)
qed

lemma sample_count_zero: "sample_count 0 = 0"
  by (simp add: sample_count_def double_round_zero)

text \<open>
  Three durations, in minutes. The double nearest to \<open>5/60\<close> is \<open>6004799503160661 / 2^56\<close>:
  its product with 60 is \<open>5 - 5 / 2^54\<close>, which rounds to 5. The double nearest to \<open>1/60\<close>
  is \<open>4803839602528529 / 2^58\<close>: its product with 60 is \<open>1 - 1 / 2^56\<close>, which rounds to 1.
  For \<open>1/64\<close> both products, \<open>15/16\<close> and \<open>41343.75\<close>, are doubles.
\<close>

lemma sample_count_five_seconds: "sample_count (6004799503160661 / 2 ^ 56) = 220500"
proof -
  have "double_round (6004799503160661 / 2 ^ 56 * 60)
      = of_int 5629499534213120 * 2 powr of_int (2 - 52)"
    by (rule double_round_eval) (simp_all add: powr_minus_divide abs_less_iff)
  then have seconds: "double_round (6004799503160661 / 2 ^ 56 * 60) = 5"
    by (simp add: powr_minus_divide)
  have "double_round (44100 * 5) = of_int 7576322310144000 * 2 powr of_int (17 - 52)"
    by (rule double_round_eval) (simp_all add: powr_minus_divide abs_less_iff)
  then have product: "double_round (44100 * 5) = 220500"
    by (simp add: powr_minus_divide)
  have rate: "real SAMPLE_RATE = 44100"
    by (simp add: SAMPLE_RATE_def)
  show ?thesis
    unfolding sample_count_def rate seconds product by simp
qed

lemma sample_count_one_second: "sample_count (4803839602528529 / 2 ^ 58) = 44100"
proof -
  have "double_round (4803839602528529 / 2 ^ 58 * 60)
      = of_int 9007199254740992 * 2 powr of_int (- 1 - 52)"
    by (rule double_round_eval) (simp_all add: powr_minus_divide abs_less_iff)
  then have seconds: "double_round (4803839602528529 / 2 ^ 58 * 60) = 1"
    by (simp add: powr_minus_divide)
  have "double_round (44100 * 1) = of_int 6061057848115200 * 2 powr of_int (15 - 52)"
    by (rule double_round_eval) (simp_all add: powr_minus_divide abs_less_iff)
  then have product: "double_round (44100 * 1) = 44100"
    by (simp add: powr_minus_divide)
  have rate: "real SAMPLE_RATE = 44100"
    by (simp add: SAMPLE_RATE_def)
  show ?thesis
    unfolding sample_count_def rate seconds product by simp
qed

lemma sample_count_sixty_fourth: "sample_count (1 / 64) = 41343"
proof -
  have "double_round (1 / 64 * 60) = of_int 8444249301319680 * 2 powr of_int (- 1 - 52)"
    by (rule double_round_eval) (simp_all add: powr_minus_divide abs_less_iff)
  then have seconds: "double_round (1 / 64 * 60) = 15 / 16"
    by (simp add: powr_minus_divide)
  have "double_round (44100 * (15 / 16)) = of_int 5682241732608000 * 2 powr of_int (15 - 52)"
    by (rule double_round_eval) (simp_all add: powr_minus_divide abs_less_iff)
  then have product: "double_round (44100 * (15 / 16)) = 165375 / 4"
    by (simp add: powr_minus_divide)
  have rate: "real SAMPLE_RATE = 44100"
    by (simp add: SAMPLE_RATE_def)
  show ?thesis
    unfolding sample_count_def rate seconds product by simp
qed

text \<open>
  The rounding matters. The double nearest to \<open>1/882000\<close> minutes is
  \<open>5354157010056287 / 2^72\<close>, a little below \<open>1/882000\<close>: the exact product with 60 and
  the sample rate is below 3, but the two rounded products give exactly 3, and the run
  has three samples.
\<close>

lemma sample_count_rounded_up:
  "sample_count (5354157010056287 / 2 ^ 72) = 3 \<and>
   \<lfloor>real SAMPLE_RATE * (5354157010056287 / 2 ^ 72 * 60)\<rfloor> = 2"
proof -
  have "double_round (5354157010056287 / 2 ^ 72 * 60)
      = of_int 5019522196927769 * 2 powr of_int (- 14 - 52)"
    by (rule double_round_eval) (simp_all add: powr_minus_divide abs_less_iff)
  then have seconds: "double_round (5354157010056287 / 2 ^ 72 * 60) = 5019522196927769 / 2 ^ 66"
    by (simp add: powr_minus_divide)
  have "double_round (44100 * (5019522196927769 / 2 ^ 66))
      = of_int 6755399441055744 * 2 powr of_int (1 - 52)"
    by (rule double_round_eval) (simp_all add: powr_minus_divide abs_less_iff)
  then have product: "double_round (44100 * (5019522196927769 / 2 ^ 66)) = 3"
    by (simp add: powr_minus_divide)
  have rate: "real SAMPLE_RATE = 44100"
    by (simp add: SAMPLE_RATE_def)
  have "sample_count (5354157010056287 / 2 ^ 72) = 3"
    unfolding sample_count_def rate seconds product by simp
  moreover have "\<lfloor>real SAMPLE_RATE * (5354157010056287 / 2 ^ 72 * 60)\<rfloor> = 2"
    unfolding rate by (simp add: floor_eq_iff)
  ultimately show ?thesis
    by (rule conjI)
qed

section \<open>\<^verbatim>\<open>generateNoise\<close> as a whole\<close>

lemma length_run_filter: "length (fst (run_filter stp s ws)) = length ws"
  by (induction ws arbitrary: s) (simp_all add: case_prod_unfold Let_def)

lemma dispatch_known:
  assumes "noiseType \<in> {''white'', ''pink'', ''brown'', ''blue'', ''violet'', ''grey'', ''orange''}"
  shows "\<exists>chunkSamples state' g'.
     dispatch noiseType g len state = Inr (chunkSamples, state', g') \<and> length chunkSamples = len"
proof -
  from assms have "noiseType = ''white'' \<or> noiseType = ''pink'' \<or> noiseType = ''brown''
    \<or> noiseType = ''blue'' \<or> noiseType = ''violet'' \<or> noiseType = ''grey''
    \<or> noiseType = ''orange''"
    by (simp only: insert_iff empty_iff simp_thms)
  then consider "noiseType = ''white''" | "noiseType = ''pink''" | "noiseType = ''brown''"
    | "noiseType = ''blue''" | "noiseType = ''violet''" | "noiseType = ''grey''"
    | "noiseType = ''orange''"
    by (elim disjE)
  then show ?thesis
  proof cases
    case 1
    show ?thesis unfolding 1 by (simp only: dispatch_white) simp
  next
    case 2
    show ?thesis unfolding 2 by (simp only: dispatch_pink) simp
  next
    case 3
    show ?thesis unfolding 3 by (simp only: dispatch_brown) simp
  next
    case 4
    show ?thesis unfolding 4 by (simp only: dispatch_blue) simp
  next
    case 5
    show ?thesis unfolding 5 by (simp only: dispatch_violet) simp
  next
    case 6
    show ?thesis unfolding 6
      by (simp only: dispatch_grey) (simp add: generateGreyNoise_eq length_run_filter)
  next
    case 7
    show ?thesis unfolding 7 by (simp only: dispatch_orange) simp
  qed
qed

lemma dispatch_unknown:
  assumes "noiseType \<notin> {''white'', ''pink'', ''brown'', ''blue'', ''violet'', ''grey'', ''orange''}"
  shows "dispatch noiseType g len state = Inl UnknownNoiseType"
proof -
  from assms have "noiseType \<noteq> ''white''" "noiseType \<noteq> ''pink''" "noiseType \<noteq> ''brown''"
    "noiseType \<noteq> ''blue''" "noiseType \<noteq> ''violet''" "noiseType \<noteq> ''grey''"
    "noiseType \<noteq> ''orange''"
    by (simp_all only: insert_iff empty_iff simp_thms de_Morgan_disj)
  then show ?thesis
    by (simp only: dispatch_def if_False)
qed

lemma chunk_loop_succeeds:
  assumes disp: "\<And>g len st. \<exists>s st' g'. dispatch ty g len st = Inr (s, st', g') \<and> length s = len"
    and chunks: "\<And>c. c < chunks \<longleftrightarrow> c * cs < tot"
  shows "n = chunks - chunk \<Longrightarrow> length samples = tot \<Longrightarrow>
     \<exists>s st' g'. chunk_loop cs ty tot chunks chunk (samples, st, g) = Inr (s, st', g') \<and>
       length s = tot"
proof (induction n arbitrary: chunk samples st g)
  case 0
  then have "\<not> chunk < chunks" by simp
  with 0 show ?case
    by (simp add: chunk_loop.simps [of cs ty tot chunks chunk])
next
  case (Suc n)
  then have lt: "chunk < chunks" by simp
  with chunks [of chunk] have a: "chunk * cs < tot" by simp
  define len where "len = min (chunk * cs + cs) tot - chunk * cs"
  have fits: "chunk * cs + len \<le> tot" using a by (simp add: len_def)
  from disp [of g len st] obtain s st' g' where
    d: "dispatch ty g len st = Inr (s, st', g')" and s: "length s = len"
    by blast
  define samples' where "samples' = take (chunk * cs) samples @ s @ drop (chunk * cs + len) samples"
  have set: "set_at samples s (chunk * cs) = Inr samples'"
    using fits s Suc.prems(2) by (simp add: set_at_def samples'_def)
  have "length samples' = tot"
    using fits s Suc.prems(2) by (simp add: samples'_def)
  moreover have "n = chunks - (chunk + 1)" using Suc.prems(1) by simp
  ultimately obtain r st'' g'' where
    "chunk_loop cs ty tot chunks (chunk + 1) (samples', st', g') = Inr (r, st'', g'')"
    "length r = tot"
    using Suc.IH [of "chunk + 1" samples' st' g'] by blast
  then show ?case
    using lt d set
    by (subst chunk_loop.simps) (simp add: len_def [symmetric])
qed

lemma generateSamples_known:
  assumes "noiseType \<in> {''white'', ''pink'', ''brown'', ''blue'', ''violet'', ''grey'', ''orange''}"
    and "0 < cs" and "n \<le> maxLength"
  shows "\<exists>samples. generateSamples cs maxLength noiseType (int n) g = ([n], Inr samples) \<and>
     length samples = n"
proof -
  let ?chunks = "nat \<lceil>real n / real cs\<rceil>"
  have "\<exists>s st' g'. chunk_loop cs noiseType n ?chunks 0 (Float32Array n, None, g) = Inr (s, st', g')
      \<and> length s = n"
    by (rule chunk_loop_succeeds [OF dispatch_known [OF assms(1)] less_chunks_iff [OF assms(2)]])
      (simp_all add: Float32Array_def)
  then show ?thesis
    using assms(3) by (auto simp: generateSamples_def)
qed

lemma generateSamples_unknown:
  assumes "noiseType \<notin> {''white'', ''pink'', ''brown'', ''blue'', ''violet'', ''grey'', ''orange''}"
    and "0 < cs" and "0 < n" and "n \<le> maxLength"
  shows "generateSamples cs maxLength noiseType (int n) g = ([n], Inl UnknownNoiseType)"
proof -
  let ?chunks = "nat \<lceil>real n / real cs\<rceil>"
  have "0 < ?chunks"
    using less_chunks_iff [OF assms(2), of 0 n] assms(3) by simp
  then have "chunk_loop cs noiseType n ?chunks 0 (Float32Array n, None, g) = Inl UnknownNoiseType"
    by (subst chunk_loop.simps) (simp add: dispatch_unknown [OF assms(1)])
  then show ?thesis
    using assms(4) by (simp add: generateSamples_def)
qed

lemma generateSamples_negative:
  "totalSamples < 0 \<Longrightarrow>
     generateSamples cs maxLength noiseType totalSamples g = ([], Inl RangeError)"
  by (simp add: generateSamples_def)

lemma generateSamples_too_long:
  "int maxLength < totalSamples \<Longrightarrow>
     generateSamples cs maxLength noiseType totalSamples g = ([], Inl RangeError)"
  by (simp add: generateSamples_def)

text \<open>Within the limit, the limit plays no part in the run.\<close>

lemma generateSamples_limit:
  assumes "n \<le> maxLength" and "n \<le> maxLength'"
  shows "generateSamples cs maxLength noiseType (int n) g
       = generateSamples cs maxLength' noiseType (int n) g"
  using assms by (simp add: generateSamples_def)

lemma generateSamples_zero:
  "generateSamples cs maxLength noiseType 0 g = ([0], Inr [])"
  by (simp add: generateSamples_def Float32Array_def chunk_loop.simps)

lemma length_normalizeSamples: "length (normalizeSamples xs) = length xs"
  by (simp add: normalizeSamples_eq)

lemma length_createWavFile:
  "\<exists>wav. createWavFile xs sampleRate = Some wav \<and> length wav = 44 + 2 * length xs"
  by (simp add: createWavFile_eq length_written_header length_written_samples)

lemma createWavFile_empty:
  "createWavFile [] SAMPLE_RATE =
     Some [82, 73, 70, 70, 36, 0, 0, 0, 87, 65, 86, 69, 102, 109, 116, 32, 16, 0, 0, 0, 1, 0, 1, 0,
           68, 172, 0, 0, 136, 88, 1, 0, 2, 0, 16, 0, 100, 97, 116, 97, 0, 0, 0, 0]"
  by (simp add: createWavFile_eq written_header_def ascii_def le_bytes_def CHANNELS_def
      SAMPLE_RATE_def upt_0_4 upt_0_2)

lemma generateNoise_sample_count:
  "generateNoise maxLength noiseType duration g =
     (case generateSamples CHUNK_SIZE maxLength noiseType (sample_count duration) g of
        (allocated, Inl e) \<Rightarrow> (allocated, Inl e)
      | (allocated, Inr samples) \<Rightarrow>
          (case createWavFile (normalizeSamples samples) SAMPLE_RATE of
             None \<Rightarrow> (allocated, Inl RangeError)
           | Some wavBlob \<Rightarrow> (allocated, Inr wavBlob)))"
  by (simp add: generateNoise_def sample_count_def Let_def)

lemma generateNoise_too_long:
  "int maxLength < sample_count duration \<Longrightarrow>
     generateNoise maxLength noiseType duration g = ([], Inl RangeError)"
  by (simp add: generateNoise_sample_count generateSamples_too_long)

lemma generateNoise_no_samples:
  assumes "sample_count duration = 0"
  shows "generateNoise maxLength noiseType duration g =
     ([0], Inr [82, 73, 70, 70, 36, 0, 0, 0, 87, 65, 86, 69, 102, 109, 116, 32, 16, 0, 0, 0,
                1, 0, 1, 0, 68, 172, 0, 0, 136, 88, 1, 0, 2, 0, 16, 0, 100, 97, 116, 97,
                0, 0, 0, 0])"
proof -
  have "normalizeSamples [] = []"
    by (simp add: normalizeSamples_eq)
  then show ?thesis
    using assms by (simp add: generateNoise_sample_count generateSamples_zero createWavFile_empty)
qed

section \<open>The claims\<close>

text \<open>
  Claim C1. For White, Pink, Brown, Blue, Violet and Orange noise and every chunk size
  \<open>cs > 0\<close>, the chunk loop, started with the state \<^verbatim>\<open>null\<close> and threading the state
  object from one chunk call to the next, fills the buffer with exactly the samples that
  one call of the generator for the whole length returns from the same random draws.
  This holds for every length; a buffer longer than the runtime allocates is the one case
  in which there is no run, because the allocation fails.
\<close>

theorem chunked_generation_equivalence:
  assumes "0 < cs"
    and "noiseType \<in> {''white'', ''pink'', ''brown'', ''blue'', ''violet'', ''orange''}"
  shows "\<exists>samples state g'.
     dispatch noiseType g n None = Inr (samples, state, g') \<and>
     generateSamples cs maxLength noiseType (int n) g =
       (if n \<le> maxLength then ([n], Inr samples) else ([], Inl RangeError))"
proof -
  from assms(2) have "noiseType = ''white'' \<or> noiseType = ''pink'' \<or> noiseType = ''brown''
    \<or> noiseType = ''blue'' \<or> noiseType = ''violet'' \<or> noiseType = ''orange''"
    by (simp only: insert_iff empty_iff simp_thms)
  then consider "noiseType = ''white''" | "noiseType = ''pink''" | "noiseType = ''brown''"
    | "noiseType = ''blue''" | "noiseType = ''violet''" | "noiseType = ''orange''"
    by (elim disjE)
  then show ?thesis
  proof cases
    case 1
    show ?thesis unfolding 1
      by (rule generateSamples_threaded
          [where dec = "\<lambda>st. ()" and enc = "\<lambda>st v. st", OF dispatch_white _ assms(1)]) simp
  next
    case 2
    show ?thesis unfolding 2
      by (rule generateSamples_threaded
          [where dec = pink_vars and enc = "\<lambda>st v. Some (pink_obj v)", OF dispatch_pink _ assms(1)])
        (rule pink_vars_obj)
  next
    case 3
    show ?thesis unfolding 3
      by (rule generateSamples_threaded
          [where dec = "\<lambda>st. field st ''lastSample''"
             and enc = "\<lambda>st v. Some [''lastSample'' \<mapsto> v]", OF dispatch_brown _ assms(1)])
        (rule field_lastSample)
  next
    case 4
    show ?thesis unfolding 4
      by (rule generateSamples_threaded
          [where dec = "\<lambda>st. field st ''lastSample''"
             and enc = "\<lambda>st v. Some [''lastSample'' \<mapsto> v]", OF dispatch_blue _ assms(1)])
        (rule field_lastSample)
  next
    case 5
    show ?thesis unfolding 5
      by (rule generateSamples_threaded
          [where dec = violet_vars and enc = "\<lambda>st v. Some (violet_obj v)",
            OF dispatch_violet _ assms(1)])
        (rule violet_vars_obj)
  next
    case 6
    show ?thesis unfolding 6
      by (rule generateSamples_threaded
          [where dec = orange_vars and enc = "\<lambda>st v. Some (orange_obj v)",
            OF dispatch_orange _ assms(1)])
        (rule orange_vars_obj)
  qed
qed

theorem chunked_generation_equivalence_witness:
  "(0::nat) < 2 \<and>
   ''brown'' \<in> {''white'', ''pink'', ''brown'', ''blue'', ''violet'', ''orange''} \<and>
   (\<exists>samples state g'.
      dispatch ''brown'' (constant_source (3 / 4)) 3 None = Inr (samples, state, g') \<and>
      generateSamples 2 9007199254740991 ''brown'' 3 (constant_source (3 / 4))
        = ([3], Inr samples)) \<and>
   generateSamples 2 9007199254740991 ''brown'' 3 (constant_source (3 / 4))
     = ([3], Inr [0.017325, 0.03447675, 0.0514569825])"
proof -
  have "generateSamples 2 3 ''brown'' 3 (constant_source (3 / 4))
      = ([3], Inr [0.017325, 0.03447675, 0.0514569825])"
    by code_simp
  then have "generateSamples 2 9007199254740991 ''brown'' 3 (constant_source (3 / 4))
      = ([3], Inr [0.017325, 0.03447675, 0.0514569825])"
    using generateSamples_limit [of 3 3 9007199254740991 2 "''brown''" "constant_source (3 / 4)"]
    by simp
  with chunked_generation_equivalence
    [where cs = 2 and noiseType = "''brown''" and g = "constant_source (3 / 4)" and n = 3
       and maxLength = 9007199254740991]
  show ?thesis
    by simp
qed

text \<open>
  Claim C2, amended. When the noise type matches none of the seven cases of the
  \<^verbatim>\<open>switch\<close> and the sample count is positive and within the limit of the runtime,
  \<open>generateNoise\<close> fails with the error \<^verbatim>\<open>Unknown noise type\<close>, raised by the \<^verbatim>\<open>switch\<close> in
  the first pass of the chunk loop: no generator is called, but the sample buffer of the
  full length has been allocated by then.
\<close>

theorem unknown_noise_type:
  assumes "noiseType \<notin> {''white'', ''pink'', ''brown'', ''blue'', ''violet'', ''grey'', ''orange''}"
    and "1 \<le> sample_count duration"
    and "sample_count duration \<le> int maxLength"
  shows "generateNoise maxLength noiseType duration g
           = ([nat (sample_count duration)], Inl UnknownNoiseType) \<and>
         dispatch noiseType g chunkLength state = Inl UnknownNoiseType"
proof -
  define n where "n = nat (sample_count duration)"
  have tot: "sample_count duration = int n" and n: "0 < n" "n \<le> maxLength"
    using assms(2,3) by (simp_all add: n_def)
  have "generateSamples CHUNK_SIZE maxLength noiseType (int n) g = ([n], Inl UnknownNoiseType)"
    using assms(1) _ n by (rule generateSamples_unknown) (simp add: CHUNK_SIZE_def)
  then have "generateNoise maxLength noiseType duration g = ([n], Inl UnknownNoiseType)"
    by (simp add: generateNoise_sample_count tot)
  then show ?thesis
    unfolding n_def using dispatch_unknown [OF assms(1)] by simp
qed

theorem unknown_noise_type_witness:
  "''unknown'' \<notin> {''white'', ''pink'', ''brown'', ''blue'', ''violet'', ''grey'', ''orange''} \<and>
   1 \<le> sample_count (6004799503160661 / 2 ^ 56) \<and>
   sample_count (6004799503160661 / 2 ^ 56) \<le> int 9007199254740991 \<and>
   generateNoise 9007199254740991 ''unknown'' (6004799503160661 / 2 ^ 56) (constant_source 0)
     = ([220500], Inl UnknownNoiseType) \<and>
   dispatch ''unknown'' (constant_source 0) 220500 None = Inl UnknownNoiseType"
  using unknown_noise_type
    [where noiseType = "''unknown''" and duration = "6004799503160661 / 2 ^ 56"
       and maxLength = 9007199254740991 and g = "constant_source 0" and chunkLength = 220500
       and state = None]
  unfolding sample_count_five_seconds by simp

text \<open>
  The claim as stated fails on the allocation. Its example is the type \<^verbatim>\<open>unknown\<close> for
  five seconds: at the double nearest to \<open>5/60\<close> minutes the count is \<open>220500\<close>, and the run
  fails after a buffer of that length has been allocated (the limit is taken as
  \<open>2^53 - 1\<close>, the largest length of the language; the count is far below the limit of
  any runtime).
\<close>

theorem unknown_noise_type_counterexample:
  "sample_count (6004799503160661 / 2 ^ 56) = 220500 \<and>
   generateNoise 9007199254740991 ''unknown'' (6004799503160661 / 2 ^ 56) (constant_source 0)
     = ([220500], Inl UnknownNoiseType) \<and>
   fst (generateNoise 9007199254740991 ''unknown'' (6004799503160661 / 2 ^ 56) (constant_source 0)) \<noteq> []"
proof -
  have "''unknown'' \<notin> {''white'', ''pink'', ''brown'', ''blue'', ''violet'', ''grey'', ''orange''}"
    by simp
  then have "generateSamples CHUNK_SIZE 9007199254740991 ''unknown'' (int 220500) (constant_source 0)
      = ([220500], Inl UnknownNoiseType)"
    by (rule generateSamples_unknown) (simp_all add: CHUNK_SIZE_def)
  then have "generateNoise 9007199254740991 ''unknown'' (6004799503160661 / 2 ^ 56) (constant_source 0)
      = ([220500], Inl UnknownNoiseType)"
    unfolding generateNoise_sample_count sample_count_five_seconds by simp
  then show ?thesis
    unfolding sample_count_five_seconds by simp
qed

text \<open>
  Claim C3, amended. The source has no check of the sample count. A negative count
  fails in the allocation of the sample buffer itself, with the \<^verbatim>\<open>RangeError\<close> of
  \<^verbatim>\<open>new Float32Array\<close>: nothing is allocated and nothing is output. A count of zero is
  not rejected: the buffer is empty, no chunk is run, and the output is the header alone.
  Both hold whatever the limit of the runtime is.
\<close>

theorem non_positive_duration:
  "(duration < 0 \<longrightarrow> generateNoise maxLength noiseType duration g = ([], Inl RangeError)) \<and>
   generateNoise maxLength noiseType 0 g =
     ([0], Inr [82, 73, 70, 70, 36, 0, 0, 0, 87, 65, 86, 69, 102, 109, 116, 32, 16, 0, 0, 0,
                1, 0, 1, 0, 68, 172, 0, 0, 136, 88, 1, 0, 2, 0, 16, 0, 100, 97, 116, 97,
                0, 0, 0, 0])"
proof (intro conjI impI)
  assume "duration < 0"
  then have "sample_count duration < 0"
    by (rule sample_count_negative)
  then show "generateNoise maxLength noiseType duration g = ([], Inl RangeError)"
    by (simp add: generateNoise_sample_count generateSamples_negative)
next
  show "generateNoise maxLength noiseType 0 g =
     ([0], Inr [82, 73, 70, 70, 36, 0, 0, 0, 87, 65, 86, 69, 102, 109, 116, 32, 16, 0, 0, 0,
                1, 0, 1, 0, 68, 172, 0, 0, 136, 88, 1, 0, 2, 0, 16, 0, 100, 97, 116, 97,
                0, 0, 0, 0])"
    by (rule generateNoise_no_samples) (rule sample_count_zero)
qed

theorem non_positive_duration_witness:
  "(- 1 :: real) < 0 \<and>
   generateNoise 9007199254740991 ''brown'' (- 1) (constant_source 0) = ([], Inl RangeError) \<and>
   generateNoise 9007199254740991 ''brown'' 0 (constant_source 0) =
     ([0], Inr [82, 73, 70, 70, 36, 0, 0, 0, 87, 65, 86, 69, 102, 109, 116, 32, 16, 0, 0, 0,
                1, 0, 1, 0, 68, 172, 0, 0, 136, 88, 1, 0, 2, 0, 16, 0, 100, 97, 116, 97,
                0, 0, 0, 0])"
  using non_positive_duration
    [where duration = "- 1" and noiseType = "''brown''" and g = "constant_source 0"
       and maxLength = 9007199254740991]
  by simp

text \<open>
  The claim as stated fails at its own example: for \<^verbatim>\<open>brown\<close> and a duration of zero the
  run ends with a 44-byte file and no error.
\<close>

theorem non_positive_duration_counterexample:
  "generateNoise 9007199254740991 ''brown'' 0 (constant_source 0) =
     ([0], Inr [82, 73, 70, 70, 36, 0, 0, 0, 87, 65, 86, 69, 102, 109, 116, 32, 16, 0, 0, 0,
                1, 0, 1, 0, 68, 172, 0, 0, 136, 88, 1, 0, 2, 0, 16, 0, 100, 97, 116, 97,
                0, 0, 0, 0]) \<and>
   snd (generateNoise 9007199254740991 ''brown'' 0 (constant_source 0)) \<noteq> Inl RangeError \<and>
   snd (generateNoise 9007199254740991 ''brown'' 0 (constant_source 0)) \<noteq> Inl UnknownNoiseType"
proof -
  have "generateNoise 9007199254740991 ''brown'' 0 (constant_source 0) =
     ([0], Inr [82, 73, 70, 70, 36, 0, 0, 0, 87, 65, 86, 69, 102, 109, 116, 32, 16, 0, 0, 0,
                1, 0, 1, 0, 68, 172, 0, 0, 136, 88, 1, 0, 2, 0, 16, 0, 100, 97, 116, 97,
                0, 0, 0, 0])"
    by (rule generateNoise_no_samples) (rule sample_count_zero)
  then show ?thesis
    by simp
qed

text \<open>
  Claim C4, amended. For each of the seven noise types and a duration that is not
  negative, when the sample count is within the limit of the runtime, \<open>generateNoise\<close>
  allocates a sample buffer of \<open>sample_count duration\<close> samples, the floor of
  \<open>SAMPLE_RATE * (duration * 60)\<close> with both products rounded to doubles, and outputs
  \<open>44 + 2 * sampleCount\<close> bytes. A count above the limit is the one case left out: the
  allocation fails there (\<open>generateNoise_too_long\<close>).
\<close>

theorem generate_sample_count:
  assumes "noiseType \<in> {''white'', ''pink'', ''brown'', ''blue'', ''violet'', ''grey'', ''orange''}"
    and "0 \<le> duration"
    and "sample_count duration \<le> int maxLength"
  shows "\<exists>wav. generateNoise maxLength noiseType duration g
            = ([nat (sample_count duration)], Inr wav) \<and>
          length wav = 44 + 2 * nat (sample_count duration)"
proof -
  define n where "n = nat (sample_count duration)"
  have "0 \<le> sample_count duration"
    using assms(2) by (rule sample_count_nonneg)
  then have tot: "sample_count duration = int n" and n: "n \<le> maxLength"
    using assms(3) by (simp_all add: n_def)
  obtain samples where
    s: "generateSamples CHUNK_SIZE maxLength noiseType (int n) g = ([n], Inr samples)"
      "length samples = n"
    using generateSamples_known [OF assms(1) _ n, of CHUNK_SIZE g]
    by (auto simp: CHUNK_SIZE_def)
  obtain wav where
    w: "createWavFile (normalizeSamples samples) SAMPLE_RATE = Some wav"
      "length wav = 44 + 2 * length (normalizeSamples samples)"
    using length_createWavFile by blast
  have "generateNoise maxLength noiseType duration g = ([n], Inr wav)"
    by (simp add: generateNoise_sample_count tot s w)
  moreover have "length wav = 44 + 2 * n"
    using w(2) s(2) by (simp add: length_normalizeSamples)
  ultimately show ?thesis
    unfolding n_def by blast
qed

text \<open>
  One second of white noise: at the double nearest to \<open>1/60\<close> minutes the count is
  \<open>44100\<close> and the output has \<open>88244\<close> bytes.
\<close>

theorem generate_sample_count_witness:
  "''white'' \<in> {''white'', ''pink'', ''brown'', ''blue'', ''violet'', ''grey'', ''orange''} \<and>
   (0::real) \<le> 4803839602528529 / 2 ^ 58 \<and>
   sample_count (4803839602528529 / 2 ^ 58) \<le> int 9007199254740991 \<and>
   (\<exists>wav. generateNoise 9007199254740991 ''white'' (4803839602528529 / 2 ^ 58) (constant_source 0)
            = ([44100], Inr wav) \<and>
      length wav = 88244)"
  using generate_sample_count
    [where noiseType = "''white''" and duration = "4803839602528529 / 2 ^ 58"
       and maxLength = 9007199254740991 and g = "constant_source 0"]
  unfolding sample_count_one_second by simp

text \<open>
  The claim as stated fails twice. At its own example, one second of white noise, the
  output has \<open>88244\<close> bytes, not \<open>44144\<close>. And the sample count is rounded down, not to the
  nearest integer: for \<open>1/64\<close> of a minute, where \<open>SAMPLE_RATE * seconds\<close> is \<open>41343.75\<close>, the
  buffer has \<open>41343\<close> samples, where rounding gives \<open>41344\<close>.
\<close>

theorem generate_sample_count_counterexample:
  "fst (generateNoise 9007199254740991 ''white'' (4803839602528529 / 2 ^ 58) (constant_source 0))
     = [44100] \<and>
   length (projr (snd (generateNoise 9007199254740991 ''white'' (4803839602528529 / 2 ^ 58)
     (constant_source 0)))) = 88244 \<and>
   length (projr (snd (generateNoise 9007199254740991 ''white'' (4803839602528529 / 2 ^ 58)
     (constant_source 0)))) \<noteq> 44144 \<and>
   fst (generateNoise 9007199254740991 ''white'' (1 / 64) (constant_source 0)) = [41343] \<and>
   round (real SAMPLE_RATE * (1 / 64 * 60)) = (41344::int)"
proof -
  have white: "''white'' \<in> {''white'', ''pink'', ''brown'', ''blue'', ''violet'', ''grey'', ''orange''}"
    by simp
  obtain samples where
    s: "generateSamples CHUNK_SIZE 9007199254740991 ''white'' (int 44100) (constant_source 0)
          = ([44100], Inr samples)"
      "length samples = 44100"
    using generateSamples_known [OF white, of CHUNK_SIZE 44100 9007199254740991 "constant_source 0"]
    by (auto simp: CHUNK_SIZE_def)
  obtain wav where
    w: "createWavFile (normalizeSamples samples) SAMPLE_RATE = Some wav"
      "length wav = 44 + 2 * length (normalizeSamples samples)"
    using length_createWavFile by blast
  have one: "generateNoise 9007199254740991 ''white'' (4803839602528529 / 2 ^ 58) (constant_source 0)
      = ([44100], Inr wav)"
    using s(1) w(1) unfolding generateNoise_sample_count sample_count_one_second by simp
  have len: "length wav = 88244"
    using w(2) s(2) by (simp add: length_normalizeSamples)
  obtain samples' where
    s': "generateSamples CHUNK_SIZE 9007199254740991 ''white'' (int 41343) (constant_source 0)
          = ([41343], Inr samples')"
    using generateSamples_known [OF white, of CHUNK_SIZE 41343 9007199254740991 "constant_source 0"]
    by (auto simp: CHUNK_SIZE_def)
  obtain wav' where
    w': "createWavFile (normalizeSamples samples') SAMPLE_RATE = Some wav'"
    using length_createWavFile by blast
  have short: "generateNoise 9007199254740991 ''white'' (1 / 64) (constant_source 0) = ([41343], Inr wav')"
    using s' w' unfolding generateNoise_sample_count sample_count_sixty_fourth by simp
  have "round (real SAMPLE_RATE * (1 / 64 * 60)) = (41344::int)"
    by (simp add: SAMPLE_RATE_def round_def)
  then show ?thesis
    by (simp only: one short fst_conv snd_conv sum.sel len) simp
qed

text \<open>
  Claim C5. \<open>createWavFile\<close> writes, after the 44 bytes of the header, two bytes per
  sample: the little-endian 16-bit value of the sample clamped to \<open>[-1, 1]\<close>, multiplied by
  \<open>32768\<close> when negative and by \<open>32767\<close> otherwise, with the fraction dropped. That
  integer always lies in \<open>[-32768, 32767]\<close>, so reading the two bytes back as a signed
  16-bit value returns it. The fraction is dropped, not rounded: \<open>0.99999\<close> gives \<open>32766\<close>
  and \<open>-0.99999\<close> gives \<open>-32767\<close>.
\<close>

theorem pcm16_conversion:
  "(\<exists>header. length header = 44 \<and>
      createWavFile samples sampleRate
        = Some (header @ concat (map (\<lambda>x. le_bytes 2 (spec_pcm16 x)) samples))) \<and>
   - 32768 \<le> spec_pcm16 x \<and> spec_pcm16 x \<le> 32767 \<and>
   read_int16_le (le_bytes 2 (spec_pcm16 x)) 0 = spec_pcm16 x \<and>
   spec_pcm16 0.99999 = 32766 \<and> spec_pcm16 (- 0.99999) = - 32767 \<and>
   spec_pcm16 1 = 32767 \<and> spec_pcm16 (- 1) = - 32768 \<and>
   spec_pcm16 2 = 32767 \<and> spec_pcm16 (- 2) = - 32768"
proof -
  have "createWavFile samples sampleRate
      = Some (written_header sampleRate (length samples)
          @ concat (map (\<lambda>x. le_bytes 2 (spec_pcm16 x)) samples))"
  proof -
    have "written_sample = (\<lambda>x. le_bytes 2 (spec_pcm16 x))"
      by (simp add: fun_eq_iff written_sample_spec)
    then show ?thesis
      by (simp only: createWavFile_eq)
  qed
  with length_written_header [of sampleRate "length samples"]
  have "\<exists>header. length header = 44 \<and>
      createWavFile samples sampleRate
        = Some (header @ concat (map (\<lambda>x. le_bytes 2 (spec_pcm16 x)) samples))"
    by (intro exI [of _ "written_header sampleRate (length samples)"] conjI)
  moreover have "read_int16_le (le_bytes 2 (spec_pcm16 x)) 0 = spec_pcm16 x"
    using spec_pcm16_range [of x] by (intro read_int16_le_written) simp_all
  moreover have "spec_pcm16 0.99999 = 32766" "spec_pcm16 (- 0.99999) = - 32767"
    "spec_pcm16 1 = 32767" "spec_pcm16 (- 1) = - 32768"
    "spec_pcm16 2 = 32767" "spec_pcm16 (- 2) = - 32768"
    by (simp_all add: spec_pcm16_def spec_clamp_def spec_truncate_def)
  ultimately show ?thesis
    using spec_pcm16_range [of x] by simp
qed

text \<open>
  Claim C6. For every sample buffer and sample rate, \<open>createWavFile\<close> emits the 44-byte
  header of the specification, every field little-endian and of the width section 6
  gives it, followed by \<open>2 * sampleCount\<close> bytes of data. When the sample rate and the
  data length fit their 32-bit fields, decoding the header yields the sample rate, one
  channel, 16 bits per sample and the data length.
\<close>

theorem wav_header_round_trip:
  "\<exists>data. createWavFile samples sampleRate
             = Some (spec_header sampleRate (length samples * 2) @ data) \<and>
     length (spec_header sampleRate (length samples * 2)) = 44 \<and>
     length data = length samples * 2 \<and>
     (sampleRate < 2 ^ 32 \<and> length samples * 2 < 2 ^ 32 \<longrightarrow>
        decode_header (spec_header sampleRate (length samples * 2) @ data)
          = (sampleRate, 1, 16, length samples * 2))"
proof -
  let ?data = "concat (map written_sample samples)"
  have "createWavFile samples sampleRate
      = Some (spec_header sampleRate (length samples * 2) @ ?data)"
    by (simp add: createWavFile_eq written_header_spec)
  moreover have "length ?data = length samples * 2"
    by (rule length_written_samples)
  moreover have "decode_header (spec_header sampleRate (length samples * 2) @ ?data)
       = (sampleRate, 1, 16, length samples * 2)"
    if "sampleRate < 2 ^ 32 \<and> length samples * 2 < 2 ^ 32"
    using that by (intro decode_spec_header) simp_all
  ultimately show ?thesis
    using length_spec_header [of sampleRate "length samples * 2"]
    by (intro exI [of _ ?data] conjI impI)
qed

theorem wav_header_round_trip_witness:
  "(44100::nat) < 2 ^ 32 \<and> length [0.5, - 1 :: real] * 2 < (2::nat) ^ 32 \<and>
   (\<exists>data. createWavFile [0.5, - 1] 44100
              = Some (spec_header 44100 (length [0.5, - 1 :: real] * 2) @ data) \<and>
     length (spec_header 44100 (length [0.5, - 1 :: real] * 2)) = 44 \<and>
     length data = length [0.5, - 1 :: real] * 2 \<and>
     decode_header (spec_header 44100 (length [0.5, - 1 :: real] * 2) @ data)
       = (44100, 1, 16, length [0.5, - 1 :: real] * 2))"
  using wav_header_round_trip [of "[0.5, - 1]" 44100] by simp

text \<open>
  Claim C7. \<open>normalizeSamples\<close> computes the largest absolute value of the buffer (zero for
  an empty buffer), multiplies every sample by \<open>0.99 / max\<close> when that maximum exceeds
  \<open>0.99\<close> and returns the buffer as it is otherwise; applying it twice gives the same
  buffer as applying it once.
\<close>

theorem normalizeSamples_idempotent:
  "normalizeSamples samples =
     (let mx = Max (insert 0 (abs ` set samples))
      in if mx > 0.99 then map (\<lambda>x. x * (0.99 / mx)) samples else samples) \<and>
   normalizeSamples (normalizeSamples samples) = normalizeSamples samples"
proof
  show "normalizeSamples samples =
     (let mx = Max (insert 0 (abs ` set samples))
      in if mx > 0.99 then map (\<lambda>x. x * (0.99 / mx)) samples else samples)"
    by (simp add: normalizeSamples_eq peak_Max Let_def)
  show "normalizeSamples (normalizeSamples samples) = normalizeSamples samples"
  proof (cases "peak samples > 0.99")
    case True
    define c where "c = 0.99 / peak samples"
    have "0 \<le> c" using True by (simp add: c_def)
    then have "peak (map (\<lambda>x. x * c) samples) = peak samples * c"
      by (rule peak_scale)
    also have "\<dots> = 0.99" using True by (simp add: c_def)
    finally have "\<not> peak (map (\<lambda>x. x * c) samples) > 0.99" by simp
    moreover have "normalizeSamples samples = map (\<lambda>x. x * c) samples"
      using True by (simp only: normalizeSamples_eq c_def if_True)
    ultimately show ?thesis
      by (simp only: normalizeSamples_eq [of "map (\<lambda>x. x * c) samples"] if_False)
  next
    case False
    then show ?thesis by (simp add: normalizeSamples_eq)
  qed
qed

text \<open>
  Claim C8. \<open>generatePinkNoise\<close> is Paul Kellet's recurrence as the specification words
  it: from the seven pole values read from the state object (zero where absent), it
  returns the outputs of \<open>spec_pink_step\<close> over the draws, in order, and a state object
  that carries all seven pole values after the last sample.
\<close>

theorem pink_filter_is_kellet_recurrence:
  "generatePinkNoise g len state =
     (let (outs, (poles, b6)) =
            run_filter spec_pink_step
              ([field state ''b0'', field state ''b1'', field state ''b2'',
                field state ''b3'', field state ''b4'', field state ''b5''],
               field state ''b6'')
              (map (\<lambda>k. g k * 2 - 1) [0..<len])
      in (outs,
          [''b0'' \<mapsto> poles ! 0, ''b1'' \<mapsto> poles ! 1, ''b2'' \<mapsto> poles ! 2,
           ''b3'' \<mapsto> poles ! 3, ''b4'' \<mapsto> poles ! 4, ''b5'' \<mapsto> poles ! 5, ''b6'' \<mapsto> b6],
          advance len g))"
proof -
  let ?v = "vars_after pink_step g (pink_vars state) len"
  have "run_filter spec_pink_step (pink_poles (pink_vars state)) (map (\<lambda>k. g k * 2 - 1) [0..<len])
      = (map (out_at pink_step g (pink_vars state)) [0..<len], pink_poles ?v)"
    by (rule run_filter_index) (rule spec_pink_step_sim)
  moreover have "pink_poles (pink_vars state) =
      ([field state ''b0'', field state ''b1'', field state ''b2'',
        field state ''b3'', field state ''b4'', field state ''b5''], field state ''b6'')"
    by (simp add: pink_poles_def pink_vars_def)
  moreover have "(case pink_poles v of (poles, b6) \<Rightarrow>
        [''b0'' \<mapsto> poles ! 0, ''b1'' \<mapsto> poles ! 1, ''b2'' \<mapsto> poles ! 2,
         ''b3'' \<mapsto> poles ! 3, ''b4'' \<mapsto> poles ! 4, ''b5'' \<mapsto> poles ! 5, ''b6'' \<mapsto> b6])
      = pink_obj v" for v
    by (cases v) (simp add: pink_poles_def pink_obj_def)
  ultimately show ?thesis
    by (simp add: generatePinkNoise_eq case_prod_unfold del: fun_upd_apply)
qed

text \<open>
  Claim C9. \<open>generateGreyNoise\<close> scales every white draw by \<open>0.7 * 0.6\<close> and applies the
  two-pole blend of the specification from \<open>state1 = state2 = 0\<close>, on every call. The
  \<^verbatim>\<open>switch\<close> passes it no state and leaves the variable \<open>state\<close> as it is, so every chunk
  restarts the blend at zero: with chunks of one sample and the constant draw \<open>3/4\<close>,
  the loop writes the first output twice, where one call for two samples returns a
  different second output.
\<close>

theorem grey_filter_restarts_every_chunk:
  "generateGreyNoise g len =
     (fst (run_filter spec_grey_step (0, 0)
             (map (\<lambda>k. (g k * 2 - 1) * 0.5 * (0.7 * 0.6)) [0..<len])),
      advance len g) \<and>
   dispatch ''grey'' g len state =
     Inr (fst (generateGreyNoise g len), state, snd (generateGreyNoise g len)) \<and>
   generateSamples 1 9007199254740991 ''grey'' 2 (constant_source (3 / 4))
     = ([2], Inr [0.040194, 0.040194]) \<and>
   fst (generateGreyNoise (constant_source (3 / 4)) 2) = [0.040194, 0.04248846]"
proof (intro conjI)
  show "generateGreyNoise g len =
     (fst (run_filter spec_grey_step (0, 0)
             (map (\<lambda>k. (g k * 2 - 1) * 0.5 * (0.7 * 0.6)) [0..<len])),
      advance len g)"
    by (rule generateGreyNoise_eq)
  show "dispatch ''grey'' g len state =
     Inr (fst (generateGreyNoise g len), state, snd (generateGreyNoise g len))"
    by (rule dispatch_grey)
  have "generateSamples 1 2 ''grey'' 2 (constant_source (3 / 4)) = ([2], Inr [0.040194, 0.040194])"
    by code_simp
  then show "generateSamples 1 9007199254740991 ''grey'' 2 (constant_source (3 / 4))
      = ([2], Inr [0.040194, 0.040194])"
    using generateSamples_limit [of 2 2 9007199254740991 1 "''grey''" "constant_source (3 / 4)"]
    by simp
  show "fst (generateGreyNoise (constant_source (3 / 4)) 2) = [0.040194, 0.04248846]"
    by code_simp
qed

text \<open>
  Claim C10. When every draw of \<^verbatim>\<open>Math.random()\<close> lies in \<open>[0, 1)\<close>, every sample of
  \<open>generateWhiteNoise\<close> lies in \<open>[-0.5, 0.5]\<close>, the largest absolute value of the buffer
  does not exceed \<open>0.99\<close>, and \<open>normalizeSamples\<close> returns the buffer unchanged.
\<close>

theorem white_noise_unchanged_by_normalizer:
  assumes "\<forall>k. 0 \<le> g k \<and> g k < 1"
  shows "(\<forall>x \<in> set (fst (generateWhiteNoise g n)). - 0.5 \<le> x \<and> x \<le> 0.5) \<and>
     peak (fst (generateWhiteNoise g n)) \<le> 0.99 \<and>
     normalizeSamples (fst (generateWhiteNoise g n)) = fst (generateWhiteNoise g n)"
proof -
  let ?s = "fst (generateWhiteNoise g n)"
  have bound: "- 0.5 \<le> x \<and> x \<le> 0.5" if "x \<in> set ?s" for x
  proof -
    from that obtain k where "x = (g k * 2 - 1) * 0.5"
      by (auto simp: generateWhiteNoise_eq)
    with assms [rule_format, of k] show ?thesis by simp
  qed
  then have "\<bar>x\<bar> \<le> 0.5" if "x \<in> set ?s" for x
    using that by (simp only: abs_le_iff) force
  then have "peak ?s \<le> 0.5"
    by (intro peak_le) simp_all
  then have "peak ?s \<le> 0.99" by simp
  with bound show ?thesis
    by (simp add: normalizeSamples_eq)
qed

theorem white_noise_unchanged_by_normalizer_witness:
  "(\<forall>k. 0 \<le> constant_source (1 / 4) k \<and> constant_source (1 / 4) k < 1) \<and>
   fst (generateWhiteNoise (constant_source (1 / 4)) 3) = [- 0.25, - 0.25, - 0.25] \<and>
   list_all (\<lambda>x. - 0.5 \<le> x \<and> x \<le> 0.5) (fst (generateWhiteNoise (constant_source (1 / 4)) 3)) \<and>
   peak (fst (generateWhiteNoise (constant_source (1 / 4)) 3)) \<le> 0.99 \<and>
   normalizeSamples (fst (generateWhiteNoise (constant_source (1 / 4)) 3))
     = fst (generateWhiteNoise (constant_source (1 / 4)) 3)"
proof -
  have draws: "\<forall>k. 0 \<le> constant_source (1 / 4) k \<and> constant_source (1 / 4) k < 1"
    by (simp add: constant_source_def)
  have samples: "fst (generateWhiteNoise (constant_source (1 / 4)) 3) = [- 0.25, - 0.25, - 0.25]"
    by code_simp
  note bounded = white_noise_unchanged_by_normalizer [OF draws, of 3]
  from bounded have "\<forall>x \<in> set (fst (generateWhiteNoise (constant_source (1 / 4)) 3)).
      - 0.5 \<le> x \<and> x \<le> 0.5"
    by (rule conjunct1)
  then have all: "list_all (\<lambda>x. - 0.5 \<le> x \<and> x \<le> 0.5)
      (fst (generateWhiteNoise (constant_source (1 / 4)) 3))"
    by (simp only: list_all_iff)
  from bounded have rest: "peak (fst (generateWhiteNoise (constant_source (1 / 4)) 3)) \<le> 0.99 \<and>
      normalizeSamples (fst (generateWhiteNoise (constant_source (1 / 4)) 3))
        = fst (generateWhiteNoise (constant_source (1 / 4)) 3)"
    by (rule conjunct2)
  from draws samples all rest show ?thesis
    by (intro conjI conjunct1 [OF rest] conjunct2 [OF rest])
qed

end
